theory Spec2Isabelle
  imports Main "HOL-Library.AList"
begin

section \<open>Data model\<close>

text \<open>
  The development embeds \<^verbatim>\<open>src/vs/platform/terminal/common/environmentVariableCollection.ts\<close>:
  the constructor of \<^verbatim>\<open>MergedEnvironmentVariableCollection\<close> (the merge), its methods
  \<^verbatim>\<open>applyToProcessEnvironment\<close> and \<^verbatim>\<open>diff\<close>, and the two helpers
  \<^verbatim>\<open>getMissingMutatorsFromArray\<close> and \<^verbatim>\<open>getChangedMutatorsFromArray\<close>.

  Modelling conventions.
  \<^item> A JavaScript \<^verbatim>\<open>Map\<close> is an association list in insertion order; \<^verbatim>\<open>get\<close> is
    \<^const>\<open>map_of\<close> and \<^verbatim>\<open>set\<close> is \<^const>\<open>AList.update\<close>, which overwrites the value
    of an existing key where it stands and puts a new key last. The keys of a
    \<^verbatim>\<open>Map\<close> are pairwise different; theorems that depend on it say so with
    \<open>distinct (map fst m)\<close>.
  \<^item> The process environment (\<^verbatim>\<open>IProcessEnvironment\<close>, an object whose values are
    \<^verbatim>\<open>string | undefined\<close>) is given as the association list of its own properties in
    the order \<^verbatim>\<open>Object.keys\<close> lists them, the value \<open>None\<close> standing for
    \<^verbatim>\<open>undefined\<close>. The call mutates the object; the model returns the map of its own
    properties after the call. The order of the keys after the call is not modelled, as the
    code reads \<^verbatim>\<open>Object.keys\<close> before it writes.
  \<^item> The environment and the object \<^verbatim>\<open>lowerToActualVariableNames\<close> are object literals:
    a read of a name that is not an own property finds what \<^verbatim>\<open>Object.prototype\<close> has
    under that name, and a write to \<^verbatim>\<open>__proto__\<close> creates no property.
  \<^item> \<^verbatim>\<open>String.prototype.toLowerCase\<close> is a parameter of the model, named \<open>toLowerCase\<close>;
    the scenarios, whose names are ASCII, use \<open>asciiToLowerCase\<close>, which maps \<open>A\<close>..\<open>Z\<close>
    to \<open>a\<close>..\<open>z\<close>.
  \<^item> The index of a workspace folder is an ordinal number, a \<open>nat\<close>.
  \<^item> The fields \<^verbatim>\<open>value\<close> and \<^verbatim>\<open>type\<close> of a mutator are named \<open>mvalue\<close> and
    \<open>mtype\<close>.
\<close>

datatype EnvironmentVariableMutatorType = Replace | Append | Prepend

text \<open>Of a workspace folder the code reads \<^verbatim>\<open>uri.fsPath\<close> and \<^verbatim>\<open>index\<close>.\<close>

record IWorkspaceFolder =
  fsPath :: string
  index :: nat

record EnvironmentVariableScope =
  workspaceFolder :: "IWorkspaceFolder option"

record IEnvironmentVariableMutator =
  variable :: string
  mvalue :: string
  mtype :: EnvironmentVariableMutatorType
  scope :: "EnvironmentVariableScope option"

record IExtensionOwnedEnvironmentVariableMutator = IEnvironmentVariableMutator +
  extensionIdentifier :: string

text \<open>
  An extension's collection is its member \<^verbatim>\<open>map\<close>, from a key to a mutator. The merge
  reads the variable from the mutator, not from the key.
\<close>

type_synonym IEnvironmentVariableCollection = "(string \<times> IEnvironmentVariableMutator) list"

type_synonym VariableMap = "(string \<times> IExtensionOwnedEnvironmentVariableMutator list) list"

record IMergedEnvironmentVariableCollection =
  variableMap :: VariableMap
  owningWorkspace :: "IWorkspaceFolder option"

record IMergedEnvironmentVariableCollectionDiff =
  added :: VariableMap
  changed :: VariableMap
  removed :: VariableMap

type_synonym IProcessEnvironment = "(string \<times> string option) list"

type_synonym EnvironmentProperties = "string \<rightharpoonup> string option"

text \<open>
  The resolver is an asynchronous function that may reject and may have effects of its own:
  it takes the string and its own state \<open>'s\<close>, and returns the rejection reason (\<open>Inl\<close>)
  or the resolved string (\<open>Inr\<close>) with the new state.
\<close>

type_synonym ('e, 's) VariableResolver = "string \<Rightarrow> 's \<Rightarrow> ('e + string) \<times> 's"

section \<open>The merge\<close>

text \<open>
  The test of lines 39-46: with an owning workspace, a mutator scoped to a workspace
  folder of another path is skipped.
\<close>

definition skippedByScope :: "IWorkspaceFolder option \<Rightarrow> IEnvironmentVariableMutator \<Rightarrow> bool" where
  "skippedByScope ow mutator =
     (case ow of
        None \<Rightarrow> False
      | Some w \<Rightarrow>
          (case scope mutator of
             None \<Rightarrow> False
           | Some sc \<Rightarrow>
               (case workspaceFolder sc of
                  None \<Rightarrow> False
                | Some f \<Rightarrow> fsPath f \<noteq> fsPath w)))"

definition ownedBy :: "string \<Rightarrow> IEnvironmentVariableMutator \<Rightarrow> IExtensionOwnedEnvironmentVariableMutator" where
  "ownedBy extId mutator =
     \<lparr>variable = variable mutator, mvalue = mvalue mutator, mtype = mtype mutator,
      scope = scope mutator, extensionIdentifier = extId\<rparr>"

text \<open>One turn of the inner loop (lines 36-68).\<close>

definition mergeMutator ::
  "IWorkspaceFolder option \<Rightarrow> string \<Rightarrow> IEnvironmentVariableMutator \<Rightarrow> VariableMap \<Rightarrow> VariableMap" where
  "mergeMutator ow extId mutator vm =
     (if skippedByScope ow mutator then vm
      else
        (case map_of vm (variable mutator) of
           None \<Rightarrow>
             AList.update (variable mutator) [ownedBy extId mutator]
               (AList.update (variable mutator) [] vm)
         | Some entry \<Rightarrow>
             (if entry \<noteq> [] \<and> mtype (hd entry) = Replace then vm
              else AList.update (variable mutator) (ownedBy extId mutator # entry) vm)))"

definition mergeCollection ::
  "IWorkspaceFolder option \<Rightarrow> string \<Rightarrow> IEnvironmentVariableCollection \<Rightarrow> VariableMap \<Rightarrow> VariableMap" where
  "mergeCollection ow extId collection vm =
     fold (\<lambda>(key, mutator). mergeMutator ow extId mutator) collection vm"

definition MergedEnvironmentVariableCollection ::
  "(string \<times> IEnvironmentVariableCollection) list \<Rightarrow> IWorkspaceFolder option
     \<Rightarrow> IMergedEnvironmentVariableCollection" where
  "MergedEnvironmentVariableCollection collections ow =
     \<lparr>variableMap = fold (\<lambda>(extId, collection). mergeCollection ow extId collection) collections [],
      owningWorkspace = ow\<rparr>"

section \<open>Applying a merged collection to an environment\<close>

text \<open>
  What every object literal inherits from \<^verbatim>\<open>Object.prototype\<close>: the names of the inherited
  properties, each with the string its value converts to (as a property key and in a
  string concatenation) in the V8 runtime. The values are functions, but for
  \<^verbatim>\<open>__proto__\<close>, which reads as the prototype object. All of them are truthy.
\<close>

definition objectPrototype :: "string \<rightharpoonup> string" where
  "objectPrototype =
     map_of
       [(''constructor'', ''function Object() { [native code] }''),
        (''__defineGetter__'', ''function __defineGetter__() { [native code] }''),
        (''__defineSetter__'', ''function __defineSetter__() { [native code] }''),
        (''hasOwnProperty'', ''function hasOwnProperty() { [native code] }''),
        (''__lookupGetter__'', ''function __lookupGetter__() { [native code] }''),
        (''__lookupSetter__'', ''function __lookupSetter__() { [native code] }''),
        (''isPrototypeOf'', ''function isPrototypeOf() { [native code] }''),
        (''propertyIsEnumerable'', ''function propertyIsEnumerable() { [native code] }''),
        (''toString'', ''function toString() { [native code] }''),
        (''valueOf'', ''function valueOf() { [native code] }''),
        (''__proto__'', ''[object Object]''),
        (''toLocaleString'', ''function toLocaleString() { [native code] }'')]"

text \<open>
  The assignment \<^verbatim>\<open>obj[k] = v\<close> of a string (or \<^verbatim>\<open>undefined\<close>) to an object literal, on
  the map of its own properties. It overwrites or creates the own property \<open>k\<close>; but
  on \<^verbatim>\<open>__proto__\<close>, when that is not an own property, it runs the inherited setter, which
  ignores a value that is not an object.
\<close>

definition setProperty :: "string \<Rightarrow> 'v \<Rightarrow> (string \<rightharpoonup> 'v) \<Rightarrow> (string \<rightharpoonup> 'v)" where
  "setProperty k v obj = (if k = ''__proto__'' \<and> obj k = None then obj else obj(k \<mapsto> v))"

text \<open>\<^verbatim>\<open>toLowerCase\<close> on ASCII strings, for the scenarios; elsewhere it is a parameter.\<close>

definition asciiToLowerCaseChar :: "char \<Rightarrow> char" where
  "asciiToLowerCaseChar c =
     (case map_of (zip ''ABCDEFGHIJKLMNOPQRSTUVWXYZ'' ''abcdefghijklmnopqrstuvwxyz'') c of
        None \<Rightarrow> c
      | Some l \<Rightarrow> l)"

definition asciiToLowerCase :: "string \<Rightarrow> string" where
  "asciiToLowerCase str = map asciiToLowerCaseChar str"

text \<open>
  Lines 76-77: the own properties of the object \<^verbatim>\<open>lowerToActualVariableNames\<close>. A later key
  of the environment overwrites an earlier one of the same lower case.
\<close>

definition lowerToActualVariableNames ::
  "(string \<Rightarrow> string) \<Rightarrow> IProcessEnvironment \<Rightarrow> (string \<rightharpoonup> string)" where
  "lowerToActualVariableNames toLowerCase env =
     fold (\<lambda>e lower. setProperty (toLowerCase e) e lower) (map fst env) Map.empty"

text \<open>
  Line 80, as the key that \<^verbatim>\<open>env[actualVariable]\<close> then reads and writes. An own property
  of \<^verbatim>\<open>lowerToActualVariableNames\<close> is a key of the environment; the empty string is falsy,
  so \<^verbatim>\<open>||\<close> falls through to the variable on it. With no own property the read finds an
  inherited one, if the name has one: a truthy value that is not a string, used as a key
  through its conversion to a string.
\<close>

definition actualVariable ::
  "(string \<Rightarrow> string) \<Rightarrow> bool \<Rightarrow> (string \<rightharpoonup> string) \<Rightarrow> string \<Rightarrow> string" where
  "actualVariable toLowerCase isWindows lower var =
     (if isWindows then
        (case lower (toLowerCase var) of
           Some a \<Rightarrow> if a = [] then var else a
         | None \<Rightarrow> (case objectPrototype (toLowerCase var) of Some t \<Rightarrow> t | None \<Rightarrow> var))
      else var)"

text \<open>
  \<^verbatim>\<open>env[k] || ''\<close>, as the string the concatenation gets: an own property that is
  \<^verbatim>\<open>undefined\<close> or the empty string gives the empty string, a name that is not an own
  property gives what the environment inherits under it, if anything.
\<close>

definition envOrEmpty :: "EnvironmentProperties \<Rightarrow> string \<Rightarrow> string" where
  "envOrEmpty env k =
     (case env k of
        Some (Some v) \<Rightarrow> v
      | Some None \<Rightarrow> []
      | None \<Rightarrow> (case objectPrototype k of Some t \<Rightarrow> t | None \<Rightarrow> []))"

text \<open>The switch of lines 88-98.\<close>

fun applyMutatorType ::
  "EnvironmentVariableMutatorType \<Rightarrow> string \<Rightarrow> string \<Rightarrow> EnvironmentProperties \<Rightarrow> EnvironmentProperties" where
  "applyMutatorType Append k v env = setProperty k (Some (envOrEmpty env k @ v)) env"
| "applyMutatorType Prepend k v env = setProperty k (Some (v @ envOrEmpty env k)) env"
| "applyMutatorType Replace k v env = setProperty k (Some v) env"

text \<open>Line 82.\<close>

definition resolveValue :: "('e, 's) VariableResolver option \<Rightarrow> string \<Rightarrow> 's \<Rightarrow> ('e + string) \<times> 's" where
  "resolveValue variableResolver v s =
     (case variableResolver of None \<Rightarrow> (Inr v, s) | Some r \<Rightarrow> r v s)"

text \<open>
  The inner loop (lines 81-99). The result is the rejection reason, if the resolver
  rejected, the own properties of the environment as the call leaves them, and the
  resolver's state.
\<close>

fun applyMutators ::
  "('e, 's) VariableResolver option \<Rightarrow> string
     \<Rightarrow> IExtensionOwnedEnvironmentVariableMutator list \<Rightarrow> EnvironmentProperties \<Rightarrow> 's
     \<Rightarrow> 'e option \<times> EnvironmentProperties \<times> 's" where
  "applyMutators variableResolver k [] env s = (None, env, s)"
| "applyMutators variableResolver k (mutator # mutators) env s =
     (case resolveValue variableResolver (mvalue mutator) s of
        (Inl e, s') \<Rightarrow> (Some e, env, s')
      | (Inr v, s') \<Rightarrow>
          applyMutators variableResolver k mutators (applyMutatorType (mtype mutator) k v env) s')"

text \<open>The outer loop (lines 79-100), over the entries of the variable map.\<close>

fun applyVariables ::
  "(string \<Rightarrow> string) \<Rightarrow> ('e, 's) VariableResolver option \<Rightarrow> bool \<Rightarrow> (string \<rightharpoonup> string)
     \<Rightarrow> VariableMap \<Rightarrow> EnvironmentProperties \<Rightarrow> 's
     \<Rightarrow> 'e option \<times> EnvironmentProperties \<times> 's" where
  "applyVariables toLowerCase variableResolver isWindows lower [] env s = (None, env, s)"
| "applyVariables toLowerCase variableResolver isWindows lower ((var, mutators) # rest) env s =
     (case applyMutators variableResolver (actualVariable toLowerCase isWindows lower var) mutators env s of
        (Some e, env', s') \<Rightarrow> (Some e, env', s')
      | (None, env', s') \<Rightarrow> applyVariables toLowerCase variableResolver isWindows lower rest env' s')"

definition applyToProcessEnvironment ::
  "(string \<Rightarrow> string) \<Rightarrow> bool \<Rightarrow> IMergedEnvironmentVariableCollection \<Rightarrow> IProcessEnvironment
     \<Rightarrow> ('e, 's) VariableResolver option \<Rightarrow> 's
     \<Rightarrow> 'e option \<times> EnvironmentProperties \<times> 's" where
  "applyToProcessEnvironment toLowerCase isWindows this env variableResolver s =
     applyVariables toLowerCase variableResolver isWindows
       (if isWindows then lowerToActualVariableNames toLowerCase env else Map.empty)
       (variableMap this) (map_of env) s"

section \<open>The difference of two merged collections\<close>

definition getMissingMutatorsFromArray ::
  "IExtensionOwnedEnvironmentVariableMutator list
     \<Rightarrow> IExtensionOwnedEnvironmentVariableMutator list option
     \<Rightarrow> IExtensionOwnedEnvironmentVariableMutator list option" where
  "getMissingMutatorsFromArray current other =
     (case other of
        None \<Rightarrow> Some current
      | Some oth \<Rightarrow>
          (let otherMutatorExtensions = fold (\<lambda>m S. insert (extensionIdentifier m) S) oth {};
               result = fold (\<lambda>mutator r.
                          if extensionIdentifier mutator \<notin> otherMutatorExtensions
                          then r @ [mutator] else r) current []
           in if result = [] then None else Some result))"

text \<open>\<^verbatim>\<open>mutator.scope?.workspaceFolder?.index\<close>\<close>

definition scopeIndex :: "IExtensionOwnedEnvironmentVariableMutator \<Rightarrow> nat option" where
  "scopeIndex mutator =
     (case scope mutator of
        None \<Rightarrow> None
      | Some sc \<Rightarrow> (case workspaceFolder sc of None \<Rightarrow> None | Some f \<Rightarrow> Some (index f)))"

definition getChangedMutatorsFromArray ::
  "IExtensionOwnedEnvironmentVariableMutator list
     \<Rightarrow> IExtensionOwnedEnvironmentVariableMutator list option
     \<Rightarrow> IExtensionOwnedEnvironmentVariableMutator list option" where
  "getChangedMutatorsFromArray current other =
     (case other of
        None \<Rightarrow> None
      | Some oth \<Rightarrow>
          (let otherMutatorExtensions = fold (\<lambda>m M. M(extensionIdentifier m \<mapsto> m)) oth Map.empty;
               result = fold (\<lambda>mutator r.
                          (case otherMutatorExtensions (extensionIdentifier mutator) of
                             None \<Rightarrow> r
                           | Some otherMutator \<Rightarrow>
                               if mtype mutator \<noteq> mtype otherMutator
                                  \<or> mvalue mutator \<noteq> mvalue otherMutator
                                  \<or> scopeIndex mutator \<noteq> scopeIndex otherMutator
                               then r @ [otherMutator] else r)) current []
           in if result = [] then None else Some result))"

text \<open>The three loops of \<^verbatim>\<open>diff\<close> (lines 108-133).\<close>

definition findAdded :: "IMergedEnvironmentVariableCollection \<Rightarrow> IMergedEnvironmentVariableCollection \<Rightarrow> VariableMap" where
  "findAdded this other =
     fold (\<lambda>(var, otherMutators) acc.
             (case getMissingMutatorsFromArray otherMutators (map_of (variableMap this) var) of
                None \<Rightarrow> acc
              | Some result \<Rightarrow> AList.update var result acc))
          (variableMap other) []"

definition findRemoved :: "IMergedEnvironmentVariableCollection \<Rightarrow> IMergedEnvironmentVariableCollection \<Rightarrow> VariableMap" where
  "findRemoved this other =
     fold (\<lambda>(var, currentMutators) acc.
             (case getMissingMutatorsFromArray currentMutators (map_of (variableMap other) var) of
                None \<Rightarrow> acc
              | Some result \<Rightarrow> AList.update var result acc))
          (variableMap this) []"

definition findChanged :: "IMergedEnvironmentVariableCollection \<Rightarrow> IMergedEnvironmentVariableCollection \<Rightarrow> VariableMap" where
  "findChanged this other =
     fold (\<lambda>(var, currentMutators) acc.
             (case getChangedMutatorsFromArray currentMutators (map_of (variableMap other) var) of
                None \<Rightarrow> acc
              | Some result \<Rightarrow> AList.update var result acc))
          (variableMap this) []"

definition diff ::
  "IMergedEnvironmentVariableCollection \<Rightarrow> IMergedEnvironmentVariableCollection
     \<Rightarrow> IMergedEnvironmentVariableCollectionDiff option" where
  "diff this other =
     (let a = findAdded this other; r = findRemoved this other; c = findChanged this other
      in if a = [] \<and> c = [] \<and> r = [] then None
         else Some \<lparr>added = a, changed = c, removed = r\<rparr>)"

section \<open>Notions used to state and prove the properties\<close>

text \<open>
  The order in which the two nested loops of the constructor (lines 32-70) visit the
  mutators: the collections in their order, each collection's entries in their order, every
  mutator paired with the identifier of its extension.
\<close>

definition mergeOrder ::
  "(string \<times> IEnvironmentVariableCollection) list \<Rightarrow> (string \<times> IEnvironmentVariableMutator) list" where
  "mergeOrder collections =
     concat (map (\<lambda>(extId, collection). map (\<lambda>(key, mutator). (extId, mutator)) collection) collections)"

text \<open>The loops as one fold over that order.\<close>

definition mergeAll ::
  "IWorkspaceFolder option \<Rightarrow> (string \<times> IEnvironmentVariableMutator) list \<Rightarrow> VariableMap \<Rightarrow> VariableMap" where
  "mergeAll ow arr vm = fold (\<lambda>(e, m). mergeMutator ow e m) arr vm"

text \<open>A list of mutators up to its first \<open>Replace\<close>, that one included.\<close>

fun uptoReplace ::
  "(string \<times> IEnvironmentVariableMutator) list \<Rightarrow> (string \<times> IEnvironmentVariableMutator) list" where
  "uptoReplace [] = []"
| "uptoReplace (x # xs) = (if mtype (snd x) = Replace then [x] else x # uptoReplace xs)"

text \<open>
  The mutators that reach the sequence of variable \<open>v\<close>: those for \<open>v\<close> that the scope test
  lets through, up to the first \<open>Replace\<close> among them; and the sequence they make, the last
  to arrive standing first.
\<close>

definition contributions ::
  "IWorkspaceFolder option \<Rightarrow> string \<Rightarrow> (string \<times> IEnvironmentVariableMutator) list
     \<Rightarrow> (string \<times> IEnvironmentVariableMutator) list" where
  "contributions ow v arr =
     uptoReplace (filter (\<lambda>(e, m). variable m = v \<and> \<not> skippedByScope ow m) arr)"

definition sequenceOf ::
  "IWorkspaceFolder option \<Rightarrow> string \<Rightarrow> (string \<times> IEnvironmentVariableMutator) list
     \<Rightarrow> IExtensionOwnedEnvironmentVariableMutator list" where
  "sequenceOf ow v arr = rev (map (\<lambda>(e, m). ownedBy e m) (contributions ow v arr))"

text \<open>
  What \<^verbatim>\<open>getChangedMutatorsFromArray\<close> records for one mutator of \<open>current\<close>: the mutator
  of \<open>other\<close> of the same extension (the last one, as \<^verbatim>\<open>Map.set\<close> overwrites), if it
  differs.
\<close>

definition changedFor ::
  "IExtensionOwnedEnvironmentVariableMutator list \<Rightarrow> IExtensionOwnedEnvironmentVariableMutator
     \<Rightarrow> IExtensionOwnedEnvironmentVariableMutator list" where
  "changedFor oth mutator =
     (case List.find (\<lambda>om. extensionIdentifier om = extensionIdentifier mutator) (rev oth) of
        None \<Rightarrow> []
      | Some otherMutator \<Rightarrow>
          if mtype mutator \<noteq> mtype otherMutator
             \<or> mvalue mutator \<noteq> mvalue otherMutator
             \<or> scopeIndex mutator \<noteq> scopeIndex otherMutator
          then [otherMutator] else [])"

text \<open>
  A resolver for the examples: it rejects the string \<open>bad\<close>, appends an exclamation mark
  to any other string, and counts its calls.
\<close>

definition rejectingResolver :: "(string, nat) VariableResolver" where
  "rejectingResolver str n = (if str = ''bad'' then Inl ''rejected'' else Inr (str @ ''!''), Suc n)"

section \<open>Properties of the merge\<close>

lemma mergeCollection_fold:
  "mergeCollection ow e c vm = mergeAll ow (map (\<lambda>(key, mutator). (e, mutator)) c) vm"
  unfolding mergeCollection_def mergeAll_def
  by (induction c arbitrary: vm) (auto)

lemma mergeAll_append: "mergeAll ow (xs @ ys) vm = mergeAll ow ys (mergeAll ow xs vm)"
  by (simp add: mergeAll_def)

lemma fold_mergeCollection:
  "fold (\<lambda>(extId, collection). mergeCollection ow extId collection) cs vm
     = mergeAll ow (mergeOrder cs) vm"
proof (induction cs arbitrary: vm)
  case Nil
  show ?case by (simp add: mergeOrder_def mergeAll_def)
next
  case (Cons c cs)
  obtain e col where c: "c = (e, col)" by (cases c)
  have "mergeOrder (c # cs) = map (\<lambda>(key, mutator). (e, mutator)) col @ mergeOrder cs"
    by (simp add: mergeOrder_def c)
  then show ?case
    using Cons.IH by (simp add: c mergeCollection_fold mergeAll_append)
qed

lemma variableMap_mergeOrder:
  "variableMap (MergedEnvironmentVariableCollection cs ow) = mergeAll ow (mergeOrder cs) []"
  by (simp add: MergedEnvironmentVariableCollection_def fold_mergeCollection)

lemma map_of_mergeMutator:
  "map_of (mergeMutator ow e m vm) v =
     (if variable m = v \<and> \<not> skippedByScope ow m then
        (case map_of vm v of
           None \<Rightarrow> Some [ownedBy e m]
         | Some entry \<Rightarrow>
             if entry \<noteq> [] \<and> mtype (hd entry) = Replace then Some entry
             else Some (ownedBy e m # entry))
      else map_of vm v)"
  by (auto simp: mergeMutator_def update_conv' split: option.splits)

lemma distinct_mergeMutator:
  "distinct (map fst vm) \<Longrightarrow> distinct (map fst (mergeMutator ow e m vm))"
  by (auto simp: mergeMutator_def distinct_update split: option.splits)

lemma distinct_mergeAll:
  "distinct (map fst vm) \<Longrightarrow> distinct (map fst (mergeAll ow arr vm))"
  unfolding mergeAll_def
  by (induction arr arbitrary: vm) (auto simp: distinct_mergeMutator)

lemma uptoReplace_Nil_iff [simp]: "uptoReplace xs = [] \<longleftrightarrow> xs = []"
  by (cases xs) auto

lemma uptoReplace_no_Replace:
  "\<forall>x\<in>set xs. mtype (snd x) \<noteq> Replace \<Longrightarrow> uptoReplace xs = xs"
  by (induction xs) auto

lemma uptoReplace_append_Replace:
  "\<exists>x\<in>set xs. mtype (snd x) = Replace \<Longrightarrow> uptoReplace (xs @ ys) = uptoReplace xs"
  by (induction xs) auto

lemma uptoReplace_append_no_Replace:
  "\<forall>x\<in>set xs. mtype (snd x) \<noteq> Replace \<Longrightarrow> uptoReplace (xs @ ys) = xs @ uptoReplace ys"
  by (induction xs) auto

lemma last_uptoReplace:
  "xs \<noteq> [] \<Longrightarrow> mtype (snd (last (uptoReplace xs))) = Replace \<longleftrightarrow> (\<exists>x\<in>set xs. mtype (snd x) = Replace)"
  by (induction xs) auto

lemma butlast_uptoReplace:
  "x \<in> set (butlast (uptoReplace xs)) \<Longrightarrow> mtype (snd x) \<noteq> Replace"
  by (induction xs) (auto split: if_splits)

lemma set_uptoReplace: "set (uptoReplace xs) \<subseteq> set xs"
  by (induction xs) auto

lemma mtype_ownedBy [simp]: "mtype (ownedBy e m) = mtype m"
  by (simp add: ownedBy_def)

lemma map_of_mergeAll:
  "map_of (mergeAll ow arr []) v =
     (if contributions ow v arr = [] then None else Some (sequenceOf ow v arr))"
proof (induction arr rule: rev_induct)
  case Nil
  show ?case by (simp add: mergeAll_def contributions_def)
next
  case (snoc x arr)
  obtain e m where x: "x = (e, m)" by (cases x)
  let ?P = "\<lambda>(e, m). variable m = v \<and> \<not> skippedByScope ow m"
  let ?ys = "filter ?P arr"
  show ?case
  proof (cases "variable m = v \<and> \<not> skippedByScope ow m")
    case False
    then have "contributions ow v (arr @ [x]) = contributions ow v arr"
      by (auto simp: contributions_def x)
    with False snoc.IH show ?thesis
      by (auto simp add: mergeAll_append mergeAll_def x map_of_mergeMutator sequenceOf_def)
  next
    case True
    then have f: "filter ?P (arr @ [x]) = ?ys @ [x]" by (simp add: x)
    show ?thesis
    proof (cases "\<exists>y\<in>set ?ys. mtype (snd y) = Replace")
      case R: True
      then have ne: "?ys \<noteq> []" by (metis empty_iff list.set(1))
      have c: "contributions ow v (arr @ [x]) = contributions ow v arr"
        unfolding contributions_def f using R by (rule uptoReplace_append_Replace)
      have "mtype (snd (last (uptoReplace ?ys))) = Replace"
        using last_uptoReplace[OF ne] R by simp
      then have "mtype (hd (sequenceOf ow v arr)) = Replace"
        using ne by (simp add: sequenceOf_def contributions_def hd_rev last_map split_beta)
      with True snoc.IH c ne show ?thesis
        by (simp add: mergeAll_append mergeAll_def x map_of_mergeMutator sequenceOf_def contributions_def)
    next
      case N: False
      then have N': "\<forall>y\<in>set ?ys. mtype (snd y) \<noteq> Replace" by blast
      have "uptoReplace [x] = [x]" by simp
      then have c: "contributions ow v (arr @ [x]) = contributions ow v arr @ [x]"
        unfolding contributions_def f
        using uptoReplace_append_no_Replace[OF N', of "[x]"] uptoReplace_no_Replace[OF N']
        by (simp del: set_filter)
      have nr: "?ys \<noteq> [] \<Longrightarrow> mtype (hd (sequenceOf ow v arr)) \<noteq> Replace"
        using last_uptoReplace[of ?ys] N
        by (simp add: sequenceOf_def contributions_def hd_rev last_map split_beta)
      show ?thesis
        using True snoc.IH c nr
        by (auto simp add: mergeAll_append mergeAll_def x map_of_mergeMutator sequenceOf_def contributions_def)
    qed
  qed
qed

lemma merged_entry_iff:
  "(v, entry) \<in> set (variableMap (MergedEnvironmentVariableCollection cs ow))
     \<longleftrightarrow> contributions ow v (mergeOrder cs) \<noteq> [] \<and> entry = sequenceOf ow v (mergeOrder cs)"
proof -
  have d: "distinct (map fst (mergeAll ow (mergeOrder cs) []))"
    by (rule distinct_mergeAll) simp
  show ?thesis
    unfolding variableMap_mergeOrder
    using map_of_eq_Some_iff[OF d, of v entry] map_of_mergeAll[of ow "mergeOrder cs" v]
    by (auto split: if_splits)
qed

lemma tl_rev_butlast: "tl (rev xs) = rev (butlast xs)"
  by (metis butlast_rev rev_rev_ident)

lemma tl_sequenceOf:
  "om \<in> set (tl (sequenceOf ow v arr)) \<Longrightarrow> mtype om \<noteq> Replace"
proof -
  assume a: "om \<in> set (tl (sequenceOf ow v arr))"
  have "tl (sequenceOf ow v arr) = rev (map (\<lambda>(e, m). ownedBy e m) (butlast (contributions ow v arr)))"
    by (simp add: sequenceOf_def map_butlast tl_rev_butlast)
  with a obtain x where "x \<in> set (butlast (contributions ow v arr))" "om = (\<lambda>(e, m). ownedBy e m) x"
    by auto
  then show ?thesis
    using butlast_uptoReplace[of x] by (auto simp: contributions_def split_beta)
qed

lemma uptoReplace_first_Replace:
  assumes "\<forall>x\<in>set pre. mtype (snd x) \<noteq> Replace" and "mtype (snd x) = Replace"
  shows "uptoReplace (pre @ x # post) = pre @ [x]"
  using uptoReplace_append_no_Replace[OF assms(1), of "x # post"] assms(2) by simp

text \<open>
  C1, as the code has it. In every merged collection the constructor produces, the
  sequence of a variable is made of the mutators for that variable that the scope test
  lets through, in the reverse of the order of the merge, up to the first \<open>Replace\<close> among
  them. So it is non-empty and no entry after the first has type \<open>Replace\<close>. If the first
  entry has type \<open>Replace\<close>, the entries behind it are exactly the mutators merged before
  that \<open>Replace\<close>, none of them a \<open>Replace\<close>, the last merged first, and nothing merged
  after it is in the sequence. If the first entry has another type, the sequence holds all
  the mutators that the scope test lets through.
\<close>

theorem C1_sequence_shape:
  assumes "(v, entry) \<in> set (variableMap (MergedEnvironmentVariableCollection collections ow))"
  shows "entry \<noteq> [] \<and> (\<forall>m\<in>set (tl entry). mtype m \<noteq> Replace)
       \<and> entry = rev (map (\<lambda>(e, m). ownedBy e m)
                   (uptoReplace (filter (\<lambda>(e, m). variable m = v \<and> \<not> skippedByScope ow m)
                                  (mergeOrder collections))))
       \<and> (mtype (hd entry) = Replace \<longrightarrow>
            (\<exists>pre e m post.
                filter (\<lambda>(e, m). variable m = v \<and> \<not> skippedByScope ow m) (mergeOrder collections)
                  = pre @ (e, m) # post
              \<and> mtype m = Replace \<and> (\<forall>x\<in>set pre. mtype (snd x) \<noteq> Replace)
              \<and> entry = ownedBy e m # rev (map (\<lambda>(e, m). ownedBy e m) pre)))
       \<and> (mtype (hd entry) \<noteq> Replace \<longrightarrow>
            entry = rev (map (\<lambda>(e, m). ownedBy e m)
                      (filter (\<lambda>(e, m). variable m = v \<and> \<not> skippedByScope ow m)
                         (mergeOrder collections))))"
proof -
  let ?ys = "filter (\<lambda>(e, m). variable m = v \<and> \<not> skippedByScope ow m) (mergeOrder collections)"
  let ?f = "\<lambda>(e, m). ownedBy e m"
  from assms have ne: "uptoReplace ?ys \<noteq> []" and eq: "entry = rev (map ?f (uptoReplace ?ys))"
    by (simp_all add: merged_entry_iff sequenceOf_def contributions_def)
  from ne have ys: "?ys \<noteq> []" by simp
  from ne eq have 1: "entry \<noteq> []" by simp
  have 2: "\<forall>m\<in>set (tl entry). mtype m \<noteq> Replace"
    using tl_sequenceOf[of _ ow v "mergeOrder collections"] eq
    by (simp add: sequenceOf_def contributions_def)
  have hd: "mtype (hd entry) = mtype (snd (last (uptoReplace ?ys)))"
    using ne by (simp add: eq hd_rev last_map split_beta)
  have 4: "\<exists>pre e m post. ?ys = pre @ (e, m) # post
              \<and> mtype m = Replace \<and> (\<forall>x\<in>set pre. mtype (snd x) \<noteq> Replace)
              \<and> entry = ownedBy e m # rev (map ?f pre)" if "mtype (hd entry) = Replace"
  proof -
    from that hd last_uptoReplace[OF ys] have "\<exists>x\<in>set ?ys. mtype (snd x) = Replace" by metis
    from split_list_first_prop[OF this]
    obtain pre x post where sp: "?ys = pre @ x # post" "mtype (snd x) = Replace"
      "\<forall>y\<in>set pre. mtype (snd y) \<noteq> Replace" by blast
    obtain e m where x: "x = (e, m)" by (cases x)
    have "uptoReplace ?ys = pre @ [x]"
      unfolding sp(1) using sp(3,2) by (rule uptoReplace_first_Replace)
    with eq have "entry = ownedBy e m # rev (map ?f pre)" by (simp add: x)
    with sp x show ?thesis by auto
  qed
  have 5: "entry = rev (map ?f ?ys)" if "mtype (hd entry) \<noteq> Replace"
  proof -
    from that hd last_uptoReplace[OF ys] have "\<forall>x\<in>set ?ys. mtype (snd x) \<noteq> Replace" by metis
    from uptoReplace_no_Replace[OF this] eq show ?thesis by simp
  qed
  from 1 2 eq 4 5 show ?thesis by blast
qed


text \<open>
  C1 as stated fails: \<open>ext.a\<close> appends to \<open>FOO\<close>, then \<open>ext.b\<close> replaces \<open>FOO\<close>. The
  sequence of \<open>FOO\<close> starts with the \<open>Replace\<close> and holds the \<open>Append\<close> behind it.
\<close>

theorem C1_counterexample:
  "variableMap (MergedEnvironmentVariableCollection
      [(''ext.a'', [(''FOO'', \<lparr>variable = ''FOO'', mvalue = ''a'', mtype = Append, scope = None\<rparr>)]),
       (''ext.b'', [(''FOO'', \<lparr>variable = ''FOO'', mvalue = ''b'', mtype = Replace, scope = None\<rparr>)])]
      None)
   = [(''FOO'',
       [\<lparr>variable = ''FOO'', mvalue = ''b'', mtype = Replace, scope = None, extensionIdentifier = ''ext.b''\<rparr>,
        \<lparr>variable = ''FOO'', mvalue = ''a'', mtype = Append, scope = None, extensionIdentifier = ''ext.a''\<rparr>])]"
  by (simp add: MergedEnvironmentVariableCollection_def mergeCollection_def mergeMutator_def
        skippedByScope_def ownedBy_def)

theorem C1_witness:
  "(''FOO'',
       [\<lparr>variable = ''FOO'', mvalue = ''b'', mtype = Replace, scope = None, extensionIdentifier = ''ext.b''\<rparr>,
        \<lparr>variable = ''FOO'', mvalue = ''a'', mtype = Append, scope = None, extensionIdentifier = ''ext.a''\<rparr>])
    \<in> set (variableMap (MergedEnvironmentVariableCollection
      [(''ext.a'', [(''FOO'', \<lparr>variable = ''FOO'', mvalue = ''a'', mtype = Append, scope = None\<rparr>),
                    (''BAR'', \<lparr>variable = ''BAR'', mvalue = ''x'', mtype = Append, scope = None\<rparr>)]),
       (''ext.b'', [(''FOO'', \<lparr>variable = ''FOO'', mvalue = ''b'', mtype = Replace, scope = None\<rparr>)]),
       (''ext.c'', [(''FOO'', \<lparr>variable = ''FOO'', mvalue = ''c'', mtype = Prepend, scope = None\<rparr>)])]
      None))
   \<and> [\<lparr>variable = ''FOO'', mvalue = ''b'', mtype = Replace, scope = None, extensionIdentifier = ''ext.b''\<rparr>,
        \<lparr>variable = ''FOO'', mvalue = ''a'', mtype = Append, scope = None, extensionIdentifier = ''ext.a''\<rparr>]
     = rev (map (\<lambda>(e, m). ownedBy e m)
         (uptoReplace (filter (\<lambda>(e, m). variable m = ''FOO'' \<and> \<not> skippedByScope None m)
            (mergeOrder
              [(''ext.a'', [(''FOO'', \<lparr>variable = ''FOO'', mvalue = ''a'', mtype = Append, scope = None\<rparr>),
                    (''BAR'', \<lparr>variable = ''BAR'', mvalue = ''x'', mtype = Append, scope = None\<rparr>)]),
               (''ext.b'', [(''FOO'', \<lparr>variable = ''FOO'', mvalue = ''b'', mtype = Replace, scope = None\<rparr>)]),
               (''ext.c'', [(''FOO'', \<lparr>variable = ''FOO'', mvalue = ''c'', mtype = Prepend, scope = None\<rparr>)])]))))
   \<and> mtype \<lparr>variable = ''FOO'', mvalue = ''a'', mtype = Append, scope = None, extensionIdentifier = ''ext.a''\<rparr> \<noteq> Replace"
proof -
  let ?cs = "[(''ext.a'', [(''FOO'', \<lparr>variable = ''FOO'', mvalue = ''a'', mtype = Append, scope = None\<rparr>),
                    (''BAR'', \<lparr>variable = ''BAR'', mvalue = ''x'', mtype = Append, scope = None\<rparr>)]),
       (''ext.b'', [(''FOO'', \<lparr>variable = ''FOO'', mvalue = ''b'', mtype = Replace, scope = None\<rparr>)]),
       (''ext.c'', [(''FOO'', \<lparr>variable = ''FOO'', mvalue = ''c'', mtype = Prepend, scope = None\<rparr>)])]"
  let ?entry = "[\<lparr>variable = ''FOO'', mvalue = ''b'', mtype = Replace, scope = None, extensionIdentifier = ''ext.b''\<rparr>,
        \<lparr>variable = ''FOO'', mvalue = ''a'', mtype = Append, scope = None, extensionIdentifier = ''ext.a''\<rparr>]"
  have h: "(''FOO'', ?entry) \<in> set (variableMap (MergedEnvironmentVariableCollection ?cs None))"
    by (simp add: MergedEnvironmentVariableCollection_def mergeCollection_def mergeMutator_def
        skippedByScope_def ownedBy_def)
  from C1_sequence_shape[OF h] h show ?thesis by simp
qed

lemma mergeOrder_append: "mergeOrder (xs @ ys) = mergeOrder xs @ mergeOrder ys"
  by (simp add: mergeOrder_def)

lemma fst_mergeOrder: "fst ` set (mergeOrder cs) \<subseteq> fst ` set cs"
  by (auto simp: mergeOrder_def) force

lemma in_mergeOrder: "(e, c) \<in> set cs \<Longrightarrow> (k, m) \<in> set c \<Longrightarrow> (e, m) \<in> set (mergeOrder cs)"
  by (auto simp: mergeOrder_def) force

lemma contributions_append_Replace:
  assumes "(e, m) \<in> set xs" "mtype m = Replace" "\<not> skippedByScope ow m"
  shows "contributions ow (variable m) (xs @ ys) = contributions ow (variable m) xs"
  unfolding contributions_def filter_append
  by (rule uptoReplace_append_Replace) (use assms in force)

lemma extension_sequenceOf:
  "om \<in> set (sequenceOf ow v arr) \<Longrightarrow> extensionIdentifier om \<in> fst ` set arr"
proof -
  assume "om \<in> set (sequenceOf ow v arr)"
  then obtain e m where "(e, m) \<in> set (contributions ow v arr)" "om = ownedBy e m"
    by (auto simp: sequenceOf_def)
  moreover have "set (contributions ow v arr) \<subseteq> set arr"
    unfolding contributions_def using set_uptoReplace by fastforce
  ultimately show ?thesis by (force simp: ownedBy_def)
qed

text \<open>
  C4, as the code has it. If the collection of an extension holds a \<open>Replace\<close> for a
  variable that the scope test lets through, then the sequence of that variable is the one
  the merge of the collections up to that extension gives: nothing the extensions
  registered after it contribute for the variable is in it, whatever its type.
\<close>

theorem C4_replace_short_circuit:
  assumes "collections = pre @ (e, c) # post"
    and "(k, m) \<in> set c" and "mtype m = Replace" and "\<not> skippedByScope ow m"
    and "distinct (map fst collections)"
  shows "\<exists>entry.
           map_of (variableMap (MergedEnvironmentVariableCollection collections ow)) (variable m) = Some entry
         \<and> map_of (variableMap (MergedEnvironmentVariableCollection (pre @ [(e, c)]) ow)) (variable m) = Some entry
         \<and> (\<forall>om\<in>set entry. extensionIdentifier om \<notin> fst ` set post)"
proof -
  let ?A = "mergeOrder (pre @ [(e, c)])"
  have split: "mergeOrder collections = ?A @ mergeOrder post"
    by (simp add: assms(1) mergeOrder_append[symmetric])
  have inA: "(e, m) \<in> set ?A"
    using assms(2) by (intro in_mergeOrder[of e c _ k]) auto
  have c: "contributions ow (variable m) (mergeOrder collections) = contributions ow (variable m) ?A"
    unfolding split using inA assms(3,4) by (rule contributions_append_Replace)
  have ne: "contributions ow (variable m) ?A \<noteq> []"
    using inA assms(4) by (auto simp: contributions_def filter_empty_conv)
  let ?entry = "sequenceOf ow (variable m) ?A"
  have 1: "map_of (variableMap (MergedEnvironmentVariableCollection collections ow)) (variable m) = Some ?entry"
    using c ne by (simp add: variableMap_mergeOrder map_of_mergeAll sequenceOf_def)
  have 2: "map_of (variableMap (MergedEnvironmentVariableCollection (pre @ [(e, c)]) ow)) (variable m) = Some ?entry"
    using ne by (simp add: variableMap_mergeOrder map_of_mergeAll)
  have 3: "extensionIdentifier om \<notin> fst ` set post" if "om \<in> set ?entry" for om
  proof -
    have "extensionIdentifier om \<in> fst ` set (pre @ [(e, c)])"
      using extension_sequenceOf[OF that] fst_mergeOrder by blast
    moreover have "fst ` set (pre @ [(e, c)]) \<inter> fst ` set post = {}"
      using assms(5) unfolding assms(1) by auto
    ultimately show ?thesis by blast
  qed
  from 1 2 3 show ?thesis by blast
qed

text \<open>
  C4 as stated fails when the scope test skips the \<open>Replace\<close>: \<open>ext.a\<close> replaces \<open>FOO\<close>
  for the folder \<open>/w1\<close>, the merge is owned by the folder \<open>/w2\<close>, and the \<open>Append\<close> of
  \<open>ext.b\<close>, registered after \<open>ext.a\<close>, is in the sequence of \<open>FOO\<close>.
\<close>

theorem C4_counterexample:
  "variableMap (MergedEnvironmentVariableCollection
      [(''ext.a'', [(''FOO'', \<lparr>variable = ''FOO'', mvalue = ''r'', mtype = Replace,
                       scope = Some \<lparr>workspaceFolder = Some \<lparr>fsPath = ''/w1'', index = 0\<rparr>\<rparr>\<rparr>)]),
       (''ext.b'', [(''FOO'', \<lparr>variable = ''FOO'', mvalue = ''x'', mtype = Append, scope = None\<rparr>)])]
      (Some \<lparr>fsPath = ''/w2'', index = 1\<rparr>))
   = [(''FOO'',
       [\<lparr>variable = ''FOO'', mvalue = ''x'', mtype = Append, scope = None, extensionIdentifier = ''ext.b''\<rparr>])]"
  by (simp add: MergedEnvironmentVariableCollection_def mergeCollection_def mergeMutator_def
        skippedByScope_def ownedBy_def)

theorem C4_witness:
  "map_of (variableMap (MergedEnvironmentVariableCollection
      [(''ext.a'', [(''FOO'', \<lparr>variable = ''FOO'', mvalue = ''r'', mtype = Replace, scope = None\<rparr>)]),
       (''ext.b'', [(''FOO'', \<lparr>variable = ''FOO'', mvalue = ''x'', mtype = Append, scope = None\<rparr>)])]
      None)) ''FOO''
   = Some [\<lparr>variable = ''FOO'', mvalue = ''r'', mtype = Replace, scope = None, extensionIdentifier = ''ext.a''\<rparr>]"
proof -
  let ?m = "\<lparr>variable = ''FOO'', mvalue = ''r'', mtype = Replace, scope = None\<rparr>"
  let ?c = "[(''FOO'', ?m)]"
  let ?post = "[(''ext.b'', [(''FOO'', \<lparr>variable = ''FOO'', mvalue = ''x'', mtype = Append, scope = None\<rparr>)])]"
  have h1: "[(''ext.a'', ?c)] @ ?post = [] @ (''ext.a'', ?c) # ?post" by simp
  have h2: "(''FOO'', ?m) \<in> set ?c" by simp
  have h3: "mtype ?m = Replace" by simp
  have h4: "\<not> skippedByScope None ?m" by (simp add: skippedByScope_def)
  have h5: "distinct (map fst ([(''ext.a'', ?c)] @ ?post))" by simp
  have one: "map_of (variableMap (MergedEnvironmentVariableCollection ([] @ [(''ext.a'', ?c)]) None)) ''FOO''
     = Some [\<lparr>variable = ''FOO'', mvalue = ''r'', mtype = Replace, scope = None, extensionIdentifier = ''ext.a''\<rparr>]"
    by (simp add: MergedEnvironmentVariableCollection_def mergeCollection_def mergeMutator_def
        skippedByScope_def ownedBy_def)
  from C4_replace_short_circuit[OF h1 h2 h3 h4 h5] one show ?thesis by auto
qed










section \<open>Properties of the difference\<close>

lemma fold_insert_image: "fold (\<lambda>m S. insert (f m) S) xs S0 = S0 \<union> f ` set xs"
  by (induction xs arbitrary: S0) auto

lemma fold_push_filter: "fold (\<lambda>x r. if P x then r @ [x] else r) xs acc = acc @ filter P xs"
  by (induction xs arbitrary: acc) auto

lemma fold_push_concat: "fold (\<lambda>x r. r @ g x) xs acc = acc @ concat (map g xs)"
  by (induction xs arbitrary: acc) auto

lemma fold_ext_map:
  "fold (\<lambda>m M. M(f m \<mapsto> m)) os M0 k =
     (case List.find (\<lambda>m. f m = k) (rev os) of None \<Rightarrow> M0 k | Some m \<Rightarrow> Some m)"
  by (induction os rule: rev_induct) auto

lemma getMissingMutatorsFromArray_Some:
  "getMissingMutatorsFromArray current (Some oth) =
     (let result = filter (\<lambda>m. extensionIdentifier m \<notin> extensionIdentifier ` set oth) current
      in if result = [] then None else Some result)"
  by (simp add: getMissingMutatorsFromArray_def fold_insert_image fold_push_filter)

lemma getChangedMutatorsFromArray_Some:
  "getChangedMutatorsFromArray current (Some oth) =
     (let result = concat (map (changedFor oth) current)
      in if result = [] then None else Some result)"
proof -
  let ?M = "fold (\<lambda>m M. M(extensionIdentifier m \<mapsto> m)) oth Map.empty"
  have step: "(\<lambda>mutator r.
                (case ?M (extensionIdentifier mutator) of
                   None \<Rightarrow> r
                 | Some otherMutator \<Rightarrow>
                     if mtype mutator \<noteq> mtype otherMutator
                        \<or> mvalue mutator \<noteq> mvalue otherMutator
                        \<or> scopeIndex mutator \<noteq> scopeIndex otherMutator
                     then r @ [otherMutator] else r))
              = (\<lambda>mutator r. r @ changedFor oth mutator)"
    by (auto simp: fun_eq_iff changedFor_def fold_ext_map split: option.splits)
  show ?thesis
    unfolding getChangedMutatorsFromArray_def option.case Let_def step fold_push_concat
    by simp
qed

lemma fold_collect:
  assumes "distinct (map fst vm)"
  shows "map_of (fold (\<lambda>(k, v) acc. case g k v of None \<Rightarrow> acc | Some r \<Rightarrow> AList.update k r acc) vm []) k' =
           (case map_of vm k' of None \<Rightarrow> None | Some v \<Rightarrow> g k' v)"
  using assms
proof (induction vm arbitrary: k' rule: rev_induct)
  case Nil
  show ?case by simp
next
  case (snoc x vm)
  obtain k v where x: "x = (k, v)" by (cases x)
  let ?F = "\<lambda>(k, v) acc. case g k v of None \<Rightarrow> acc | Some r \<Rightarrow> AList.update k r acc"
  let ?A = "fold ?F vm []"
  from snoc.prems have d: "distinct (map fst vm)" and nk: "k \<notin> fst ` set vm"
    by (auto simp: x)
  from nk have none: "map_of vm k = None" by (simp add: map_of_eq_None_iff)
  have IH: "map_of ?A k' = (case map_of vm k' of None \<Rightarrow> None | Some v \<Rightarrow> g k' v)" for k'
    using snoc.IH[OF d] by simp
  have f: "fold ?F (vm @ [x]) [] = (case g k v of None \<Rightarrow> ?A | Some r \<Rightarrow> AList.update k r ?A)"
    by (simp add: x)
  have rhs: "map_of (vm @ [x]) k' = (if k' = k then Some v else map_of vm k')"
    using none by (simp add: x map_add_def split: option.splits)
  show ?case
  proof (cases "k' = k")
    case True
    have "map_of (case g k v of None \<Rightarrow> ?A | Some r \<Rightarrow> AList.update k r ?A) k = g k v"
      using IH[of k] none by (cases "g k v") (simp_all add: update_conv')
    then show ?thesis unfolding f rhs using True by simp
  next
    case False
    have "map_of (case g k v of None \<Rightarrow> ?A | Some r \<Rightarrow> AList.update k r ?A) k' = map_of ?A k'"
      using False by (cases "g k v") (simp_all add: update_conv')
    then show ?thesis unfolding f rhs using False IH[of k'] by simp
  qed
qed

lemma fold_collect_Nil:
  assumes "\<forall>(k, v)\<in>set vm. g k v = None"
  shows "fold (\<lambda>(k, v) acc. case g k v of None \<Rightarrow> acc | Some r \<Rightarrow> AList.update k r acc) vm acc = acc"
  using assms by (induction vm arbitrary: acc) auto

lemma fold_collect_not_Nil:
  "acc \<noteq> [] \<Longrightarrow>
     fold (\<lambda>(k, v) acc. case g k v of None \<Rightarrow> acc | Some r \<Rightarrow> AList.update k r acc) ys acc \<noteq> []"
proof (induction ys arbitrary: acc)
  case Nil
  then show ?case by simp
next
  case (Cons y ys)
  obtain k v where y: "y = (k, v)" by (cases y)
  show ?case
  proof (cases "g k v")
    case None
    with Cons show ?thesis by (simp add: y)
  next
    case (Some r)
    have "AList.update k r acc \<noteq> []" by simp
    from Cons.IH[OF this] show ?thesis by (simp add: y Some)
  qed
qed

lemma fold_collect_Nil_iff:
  "fold (\<lambda>(k, v) acc. case g k v of None \<Rightarrow> acc | Some r \<Rightarrow> AList.update k r acc) vm [] = []
     \<longleftrightarrow> (\<forall>(k, v)\<in>set vm. g k v = None)"
proof
  assume r: "\<forall>(k, v)\<in>set vm. g k v = None"
  then show "fold (\<lambda>(k, v) acc. case g k v of None \<Rightarrow> acc | Some r \<Rightarrow> AList.update k r acc) vm [] = []"
    by (rule fold_collect_Nil)
next
  assume l: "fold (\<lambda>(k, v) acc. case g k v of None \<Rightarrow> acc | Some r \<Rightarrow> AList.update k r acc) vm [] = []"
  then show "\<forall>(k, v)\<in>set vm. g k v = None"
  proof (induction vm)
    case Nil
    show ?case by simp
  next
    case (Cons x vm)
    obtain k v where x: "x = (k, v)" by (cases x)
    show ?case
    proof (cases "g k v")
      case None
      with Cons show ?thesis by (simp add: x)
    next
      case (Some r)
      have "AList.update k r [] \<noteq> []" by simp
      from fold_collect_not_Nil[OF this, of g vm] Cons.prems show ?thesis by (simp add: x Some)
    qed
  qed
qed

lemma find_SomeD: "List.find P ys = Some y \<Longrightarrow> y \<in> set ys \<and> P y"
  by (induction ys) (auto split: if_splits)

lemma find_distinct_key:
  assumes "distinct (map f xs)" and "m \<in> set xs"
  shows "List.find (\<lambda>x. f x = f m) (rev xs) = Some m"
proof (cases "List.find (\<lambda>x. f x = f m) (rev xs)")
  case None
  with assms(2) show ?thesis by (auto simp: find_None_iff)
next
  case (Some y)
  then have "y \<in> set xs" "f y = f m"
    by (auto dest: find_SomeD)
  moreover from assms(1) have "inj_on f (set xs)" by (simp add: distinct_map)
  ultimately have "y = m" using assms(2) by (auto dest: inj_onD)
  with Some show ?thesis by simp
qed

lemma find_key_SomeD:
  "List.find (\<lambda>x. f x = k) (rev xs) = Some y \<Longrightarrow> y \<in> set xs \<and> f y = k"
  by (auto dest: find_SomeD)

lemma changedFor_self:
  assumes "distinct (map extensionIdentifier ms)" and "m \<in> set ms"
  shows "changedFor ms m = []"
  using find_distinct_key[OF assms] by (simp add: changedFor_def)

lemma getMissing_self: "getMissingMutatorsFromArray ms (Some ms) = None"
  by (simp add: getMissingMutatorsFromArray_Some filter_empty_conv)

lemma getChanged_self:
  assumes "distinct (map extensionIdentifier ms)"
  shows "getChangedMutatorsFromArray ms (Some ms) = None"
  using changedFor_self[OF assms] by (simp add: getChangedMutatorsFromArray_Some)

lemma diff_self:
  assumes d: "distinct (map fst (variableMap X))"
    and e: "\<forall>(v, ms)\<in>set (variableMap X). distinct (map extensionIdentifier ms)"
  shows "diff X X = None"
proof -
  have look: "map_of (variableMap X) v = Some ms" if "(v, ms) \<in> set (variableMap X)" for v ms
    using that d by simp
  have a: "findAdded X X = []"
    unfolding findAdded_def
    by (rule fold_collect_Nil) (auto simp: look getMissing_self)
  have r: "findRemoved X X = []"
    unfolding findRemoved_def
    by (rule fold_collect_Nil) (auto simp: look getMissing_self)
  have c: "findChanged X X = []"
    unfolding findChanged_def
    by (rule fold_collect_Nil) (use e in \<open>auto simp: look getChanged_self\<close>)
  show ?thesis by (simp add: diff_def a r c)
qed

lemma distinct_uptoReplace:
  "distinct (map f xs) \<Longrightarrow> distinct (map f (uptoReplace xs))"
proof (induction xs)
  case Nil
  show ?case by simp
next
  case (Cons x xs)
  have "f ` set (uptoReplace xs) \<subseteq> f ` set xs"
    using set_uptoReplace[of xs] by blast
  with Cons show ?case by auto
qed

lemma distinct_mergeOrder:
  assumes "distinct (map fst cs)"
    and "\<forall>(e, c)\<in>set cs. distinct (map (\<lambda>(k, m). variable m) c)"
  shows "distinct (map (\<lambda>(e, m). (e, variable m)) (mergeOrder cs))"
  using assms
proof (induction cs)
  case Nil
  show ?case by (simp add: mergeOrder_def)
next
  case (Cons x cs)
  obtain e c where x: "x = (e, c)" by (cases x)
  have mo: "mergeOrder (x # cs) = map (\<lambda>(k, m). (e, m)) c @ mergeOrder cs"
    by (simp add: mergeOrder_def x)
  have first: "map (\<lambda>(e, m). (e, variable m)) (map (\<lambda>(k, m). (e, m)) c)
                 = map (Pair e) (map (\<lambda>(k, m). variable m) c)"
    by (simp add: split_beta)
  have "distinct (map (\<lambda>(k, m). variable m) c)"
    using Cons.prems(2) by (simp add: x)
  then have d1: "distinct (map (\<lambda>(e, m). (e, variable m)) (map (\<lambda>(k, m). (e, m)) c))"
    unfolding first by (simp add: distinct_map inj_on_def)
  have d2: "distinct (map (\<lambda>(e, m). (e, variable m)) (mergeOrder cs))"
    using Cons by simp
  have "e \<notin> fst ` set cs" using Cons.prems(1) by (simp add: x)
  then have "e \<notin> fst ` set (mergeOrder cs)" using fst_mergeOrder by blast
  then have disj: "set (map (\<lambda>(e, m). (e, variable m)) (map (\<lambda>(k, m). (e, m)) c))
                   \<inter> set (map (\<lambda>(e, m). (e, variable m)) (mergeOrder cs)) = {}"
    by (auto simp: split_beta)
  show ?case unfolding mo map_append using d1 d2 disj by (simp only: distinct_append)
qed

lemma extensionIdentifier_ownedBy [simp]: "extensionIdentifier (ownedBy e m) = e"
  by (simp add: ownedBy_def)

lemma distinct_sequenceOf:
  assumes "distinct (map (\<lambda>(e, m). (e, variable m)) arr)"
  shows "distinct (map extensionIdentifier (sequenceOf ow v arr))"
proof -
  let ?P = "\<lambda>(e, m). variable m = v \<and> \<not> skippedByScope ow m"
  let ?ys = "filter ?P arr"
  have "distinct (map (\<lambda>(e, m). (e, variable m)) ?ys)"
    using assms by (rule distinct_map_filter)
  moreover have "map (\<lambda>(e, m). (e, variable m)) ?ys = map (\<lambda>e. (e, v)) (map fst ?ys)"
    by (auto simp: split_beta)
  ultimately have "distinct (map (\<lambda>e. (e, v)) (map fst ?ys))" by simp
  then have "distinct (map fst ?ys)" by (simp only: distinct_map)
  then have "distinct (map fst (contributions ow v arr))"
    unfolding contributions_def by (rule distinct_uptoReplace)
  moreover have "map extensionIdentifier (sequenceOf ow v arr) = rev (map fst (contributions ow v arr))"
    by (simp add: sequenceOf_def rev_map split_beta comp_def)
  ultimately show ?thesis by simp
qed

lemma merged_distinct_keys:
  "distinct (map fst (variableMap (MergedEnvironmentVariableCollection cs ow)))"
  unfolding variableMap_mergeOrder by (rule distinct_mergeAll) simp

lemma merged_distinct_extensions:
  assumes "distinct (map fst cs)"
    and "\<forall>(e, c)\<in>set cs. distinct (map (\<lambda>(k, m). variable m) c)"
    and "(v, ms) \<in> set (variableMap (MergedEnvironmentVariableCollection cs ow))"
  shows "distinct (map extensionIdentifier ms)"
  using assms(3) distinct_sequenceOf[OF distinct_mergeOrder[OF assms(1,2)]]
  by (simp add: merged_entry_iff)

text \<open>
  C7. For any two merged collections, the map of added mutators that \<open>diff current other\<close>
  computes is the map of removed mutators that \<open>diff other current\<close> computes: the same
  variables in the same order, each with the same sequence of mutators. When both calls
  return a result, its \<open>added\<close> and \<open>removed\<close> members are equal; when one of them returns
  \<^verbatim>\<open>undefined\<close>, the member of the other is empty.
\<close>

theorem C7_diff_symmetry:
  "findAdded current other = findRemoved other current
   \<and> (\<forall>d d'. diff current other = Some d \<and> diff other current = Some d' \<longrightarrow> added d = removed d')
   \<and> (\<forall>d. diff current other = Some d \<and> diff other current = None \<longrightarrow> added d = [])
   \<and> (\<forall>d'. diff current other = None \<and> diff other current = Some d' \<longrightarrow> removed d' = [])"
proof -
  have eq: "findAdded current other = findRemoved other current"
    by (simp add: findAdded_def findRemoved_def)
  have a: "added d = findAdded current other" if "diff current other = Some d" for d
    using that by (auto simp: diff_def Let_def split: if_splits)
  have r: "removed d' = findRemoved other current" if "diff other current = Some d'" for d'
    using that by (auto simp: diff_def Let_def split: if_splits)
  have an: "findAdded current other = []" if "diff current other = None"
    using that by (auto simp: diff_def Let_def split: if_splits)
  have rn: "findRemoved other current = []" if "diff other current = None"
    using that by (auto simp: diff_def Let_def split: if_splits)
  show ?thesis using eq a r an rn by metis
qed

theorem C7_witness:
  "diff \<lparr>variableMap = [(''FOO'',
            [\<lparr>variable = ''FOO'', mvalue = ''a'', mtype = Append, scope = None, extensionIdentifier = ''ext.a''\<rparr>,
             \<lparr>variable = ''FOO'', mvalue = ''b'', mtype = Prepend, scope = None, extensionIdentifier = ''ext.b''\<rparr>])],
         owningWorkspace = None\<rparr>
        \<lparr>variableMap = [(''FOO'',
            [\<lparr>variable = ''FOO'', mvalue = ''b'', mtype = Prepend, scope = None, extensionIdentifier = ''ext.b''\<rparr>,
             \<lparr>variable = ''FOO'', mvalue = ''c'', mtype = Append, scope = None, extensionIdentifier = ''ext.c''\<rparr>]),
           (''BAR'',
            [\<lparr>variable = ''BAR'', mvalue = ''d'', mtype = Replace, scope = None, extensionIdentifier = ''ext.c''\<rparr>])],
         owningWorkspace = None\<rparr>
     = Some \<lparr>added = [(''FOO'', [\<lparr>variable = ''FOO'', mvalue = ''c'', mtype = Append, scope = None, extensionIdentifier = ''ext.c''\<rparr>]),
                      (''BAR'', [\<lparr>variable = ''BAR'', mvalue = ''d'', mtype = Replace, scope = None, extensionIdentifier = ''ext.c''\<rparr>])],
             changed = [],
             removed = [(''FOO'', [\<lparr>variable = ''FOO'', mvalue = ''a'', mtype = Append, scope = None, extensionIdentifier = ''ext.a''\<rparr>])]\<rparr>
   \<and> diff \<lparr>variableMap = [(''FOO'',
            [\<lparr>variable = ''FOO'', mvalue = ''b'', mtype = Prepend, scope = None, extensionIdentifier = ''ext.b''\<rparr>,
             \<lparr>variable = ''FOO'', mvalue = ''c'', mtype = Append, scope = None, extensionIdentifier = ''ext.c''\<rparr>]),
           (''BAR'',
            [\<lparr>variable = ''BAR'', mvalue = ''d'', mtype = Replace, scope = None, extensionIdentifier = ''ext.c''\<rparr>])],
         owningWorkspace = None\<rparr>
        \<lparr>variableMap = [(''FOO'',
            [\<lparr>variable = ''FOO'', mvalue = ''a'', mtype = Append, scope = None, extensionIdentifier = ''ext.a''\<rparr>,
             \<lparr>variable = ''FOO'', mvalue = ''b'', mtype = Prepend, scope = None, extensionIdentifier = ''ext.b''\<rparr>])],
         owningWorkspace = None\<rparr>
     = Some \<lparr>added = [(''FOO'', [\<lparr>variable = ''FOO'', mvalue = ''a'', mtype = Append, scope = None, extensionIdentifier = ''ext.a''\<rparr>])],
             changed = [],
             removed = [(''FOO'', [\<lparr>variable = ''FOO'', mvalue = ''c'', mtype = Append, scope = None, extensionIdentifier = ''ext.c''\<rparr>]),
                      (''BAR'', [\<lparr>variable = ''BAR'', mvalue = ''d'', mtype = Replace, scope = None, extensionIdentifier = ''ext.c''\<rparr>])]\<rparr>"
proof -
  let ?cur = "\<lparr>variableMap = [(''FOO'',
            [\<lparr>variable = ''FOO'', mvalue = ''a'', mtype = Append, scope = None, extensionIdentifier = ''ext.a''\<rparr>,
             \<lparr>variable = ''FOO'', mvalue = ''b'', mtype = Prepend, scope = None, extensionIdentifier = ''ext.b''\<rparr>])],
         owningWorkspace = None\<rparr>"
  let ?oth = "\<lparr>variableMap = [(''FOO'',
            [\<lparr>variable = ''FOO'', mvalue = ''b'', mtype = Prepend, scope = None, extensionIdentifier = ''ext.b''\<rparr>,
             \<lparr>variable = ''FOO'', mvalue = ''c'', mtype = Append, scope = None, extensionIdentifier = ''ext.c''\<rparr>]),
           (''BAR'',
            [\<lparr>variable = ''BAR'', mvalue = ''d'', mtype = Replace, scope = None, extensionIdentifier = ''ext.c''\<rparr>])],
         owningWorkspace = None\<rparr>"
  let ?d = "\<lparr>added = [(''FOO'', [\<lparr>variable = ''FOO'', mvalue = ''c'', mtype = Append, scope = None, extensionIdentifier = ''ext.c''\<rparr>]),
                      (''BAR'', [\<lparr>variable = ''BAR'', mvalue = ''d'', mtype = Replace, scope = None, extensionIdentifier = ''ext.c''\<rparr>])],
             changed = [],
             removed = [(''FOO'', [\<lparr>variable = ''FOO'', mvalue = ''a'', mtype = Append, scope = None, extensionIdentifier = ''ext.a''\<rparr>])]\<rparr>"
  have fwd: "diff ?cur ?oth = Some ?d"
    by (simp add: diff_def findAdded_def findRemoved_def findChanged_def
          getMissingMutatorsFromArray_def getChangedMutatorsFromArray_def scopeIndex_def)
  have bwd: "\<exists>d'. diff ?oth ?cur = Some d' \<and> added d' = removed ?d \<and> changed d' = []"
    by (simp add: diff_def findAdded_def findRemoved_def findChanged_def
          getMissingMutatorsFromArray_def getChangedMutatorsFromArray_def scopeIndex_def)
  then obtain d' where d': "diff ?oth ?cur = Some d'" "added d' = removed ?d" "changed d' = []"
    by blast
  from C7_diff_symmetry[of ?cur ?oth] fwd d'(1) have "added ?d = removed d'" by blast
  with d' have "d' = \<lparr>added = removed ?d, changed = [], removed = added ?d\<rparr>" by simp
  with fwd d'(1) show ?thesis by simp
qed

text \<open>
  C8, as the code has it. \<open>diff X X\<close> is \<^verbatim>\<open>undefined\<close> for every merged collection \<open>X\<close>
  in which no sequence holds two mutators of one extension; the constructor produces such
  a collection whenever no collection holds two mutators for one variable. In general
  \<open>diff\<close> returns \<^verbatim>\<open>undefined\<close> exactly when the three maps it computed are empty, and
  the object made of the three maps otherwise.
\<close>

theorem C8_diff_self:
  "(distinct (map fst (variableMap X))
      \<and> (\<forall>(v, ms)\<in>set (variableMap X). distinct (map extensionIdentifier ms))
      \<longrightarrow> diff X X = None)
   \<and> (distinct (map fst collections)
      \<and> (\<forall>(e, c)\<in>set collections. distinct (map (\<lambda>(k, m). variable m) c))
      \<longrightarrow> diff (MergedEnvironmentVariableCollection collections ow)
               (MergedEnvironmentVariableCollection collections ow) = None)
   \<and> (diff this other = None
        \<longleftrightarrow> findAdded this other = [] \<and> findChanged this other = [] \<and> findRemoved this other = [])
   \<and> (\<forall>d. diff this other = Some d \<longrightarrow>
          d = \<lparr>added = findAdded this other, changed = findChanged this other,
               removed = findRemoved this other\<rparr>)"
proof (intro conjI)
  show "distinct (map fst (variableMap X))
      \<and> (\<forall>(v, ms)\<in>set (variableMap X). distinct (map extensionIdentifier ms))
      \<longrightarrow> diff X X = None"
    using diff_self by blast
next
  show "distinct (map fst collections)
      \<and> (\<forall>(e, c)\<in>set collections. distinct (map (\<lambda>(k, m). variable m) c))
      \<longrightarrow> diff (MergedEnvironmentVariableCollection collections ow)
               (MergedEnvironmentVariableCollection collections ow) = None"
  proof
    assume a: "distinct (map fst collections)
      \<and> (\<forall>(e, c)\<in>set collections. distinct (map (\<lambda>(k, m). variable m) c))"
    show "diff (MergedEnvironmentVariableCollection collections ow)
               (MergedEnvironmentVariableCollection collections ow) = None"
    proof (rule diff_self)
      show "distinct (map fst (variableMap (MergedEnvironmentVariableCollection collections ow)))"
        by (rule merged_distinct_keys)
      show "\<forall>(v, ms)\<in>set (variableMap (MergedEnvironmentVariableCollection collections ow)).
              distinct (map extensionIdentifier ms)"
        using a merged_distinct_extensions by blast
    qed
  qed
next
  show "diff this other = None
        \<longleftrightarrow> findAdded this other = [] \<and> findChanged this other = [] \<and> findRemoved this other = []"
    by (simp add: diff_def Let_def)
next
  show "\<forall>d. diff this other = Some d \<longrightarrow>
          d = \<lparr>added = findAdded this other, changed = findChanged this other,
               removed = findRemoved this other\<rparr>"
    by (auto simp: diff_def Let_def split: if_splits)
qed

text \<open>
  C8 as stated fails: an extension holds two mutators for \<open>FOO\<close>, one unscoped and one
  scoped to a folder, under two keys of its collection. Both reach the sequence of \<open>FOO\<close>,
  and \<open>diff X X\<close> reports the unscoped one as changed.
\<close>

theorem C8_counterexample:
  "diff (MergedEnvironmentVariableCollection
           [(''ext.e'',
             [(''FOO'', \<lparr>variable = ''FOO'', mvalue = ''x'', mtype = Append, scope = None\<rparr>),
              (''FOO:::/w'', \<lparr>variable = ''FOO'', mvalue = ''y'', mtype = Append,
                  scope = Some \<lparr>workspaceFolder = Some \<lparr>fsPath = ''/w'', index = 0\<rparr>\<rparr>\<rparr>)])]
           None)
        (MergedEnvironmentVariableCollection
           [(''ext.e'',
             [(''FOO'', \<lparr>variable = ''FOO'', mvalue = ''x'', mtype = Append, scope = None\<rparr>),
              (''FOO:::/w'', \<lparr>variable = ''FOO'', mvalue = ''y'', mtype = Append,
                  scope = Some \<lparr>workspaceFolder = Some \<lparr>fsPath = ''/w'', index = 0\<rparr>\<rparr>\<rparr>)])]
           None)
   = Some \<lparr>added = [],
           changed = [(''FOO'', [\<lparr>variable = ''FOO'', mvalue = ''x'', mtype = Append, scope = None,
                                  extensionIdentifier = ''ext.e''\<rparr>])],
           removed = []\<rparr>"
  by (simp add: MergedEnvironmentVariableCollection_def mergeCollection_def mergeMutator_def
        skippedByScope_def ownedBy_def diff_def findAdded_def findRemoved_def findChanged_def
        getMissingMutatorsFromArray_def getChangedMutatorsFromArray_def scopeIndex_def)


theorem C8_witness:
  "diff \<lparr>variableMap = [(''FOO'',
            [\<lparr>variable = ''FOO'', mvalue = ''2'', mtype = Append, scope = None, extensionIdentifier = ''ext.b''\<rparr>,
             \<lparr>variable = ''FOO'', mvalue = ''1'', mtype = Prepend, scope = None, extensionIdentifier = ''ext.a''\<rparr>])],
          owningWorkspace = None\<rparr>
        \<lparr>variableMap = [(''FOO'',
            [\<lparr>variable = ''FOO'', mvalue = ''2'', mtype = Append, scope = None, extensionIdentifier = ''ext.b''\<rparr>,
             \<lparr>variable = ''FOO'', mvalue = ''1'', mtype = Prepend, scope = None, extensionIdentifier = ''ext.a''\<rparr>])],
          owningWorkspace = None\<rparr>
   = None
   \<and> diff (MergedEnvironmentVariableCollection
           [(''ext.a'', [(''FOO'', \<lparr>variable = ''FOO'', mvalue = ''1'', mtype = Prepend, scope = None\<rparr>)]),
            (''ext.b'', [(''FOO'', \<lparr>variable = ''FOO'', mvalue = ''2'', mtype = Append, scope = None\<rparr>),
                         (''BAR'', \<lparr>variable = ''BAR'', mvalue = ''3'', mtype = Replace, scope = None\<rparr>)])]
           None)
        (MergedEnvironmentVariableCollection
           [(''ext.a'', [(''FOO'', \<lparr>variable = ''FOO'', mvalue = ''1'', mtype = Prepend, scope = None\<rparr>)]),
            (''ext.b'', [(''FOO'', \<lparr>variable = ''FOO'', mvalue = ''2'', mtype = Append, scope = None\<rparr>),
                         (''BAR'', \<lparr>variable = ''BAR'', mvalue = ''3'', mtype = Replace, scope = None\<rparr>)])]
           None)
   = None"
proof -
  let ?X = "\<lparr>variableMap = [(''FOO'',
            [\<lparr>variable = ''FOO'', mvalue = ''2'', mtype = Append, scope = None, extensionIdentifier = ''ext.b''\<rparr>,
             \<lparr>variable = ''FOO'', mvalue = ''1'', mtype = Prepend, scope = None, extensionIdentifier = ''ext.a''\<rparr>])],
          owningWorkspace = None\<rparr>"
  let ?cs = "[(''ext.a'', [(''FOO'', \<lparr>variable = ''FOO'', mvalue = ''1'', mtype = Prepend, scope = None\<rparr>)]),
            (''ext.b'', [(''FOO'', \<lparr>variable = ''FOO'', mvalue = ''2'', mtype = Append, scope = None\<rparr>),
                         (''BAR'', \<lparr>variable = ''BAR'', mvalue = ''3'', mtype = Replace, scope = None\<rparr>)])]"
  have g: "distinct (map fst (variableMap ?X))
      \<and> (\<forall>(v, ms)\<in>set (variableMap ?X). distinct (map extensionIdentifier ms))"
    by simp
  have h: "distinct (map fst ?cs) \<and> (\<forall>(e, c)\<in>set ?cs. distinct (map (\<lambda>(k, m). variable m) c))"
    by simp
  from C8_diff_self[of ?X, THEN conjunct1, rule_format, OF g]
    C8_diff_self[of _ ?cs None, THEN conjunct2, THEN conjunct1, rule_format, OF h]
  show ?thesis by (rule conjI)
qed

lemma map_of_findChanged:
  assumes "distinct (map fst (variableMap current))"
    and "map_of (variableMap current) v = Some cs"
    and "map_of (variableMap other) v = Some os"
  shows "map_of (findChanged current other) v =
           (if concat (map (changedFor os) cs) = [] then None
            else Some (concat (map (changedFor os) cs)))"
  unfolding findChanged_def fold_collect[OF assms(1)]
  by (simp add: assms(2,3) getChangedMutatorsFromArray_Some)

lemma concat_map_single:
  assumes "distinct xs" and "x \<in> set xs" and "\<forall>y\<in>set xs. y \<noteq> x \<longrightarrow> g y = []"
  shows "concat (map g xs) = g x"
  using assms
proof (induction xs)
  case Nil
  then show ?case by simp
next
  case (Cons a xs)
  show ?case
  proof (cases "a = x")
    case True
    with Cons.prems have "\<forall>y\<in>set xs. g y = []" by auto
    then have "concat (map g xs) = []" by simp
    with True show ?thesis by simp
  next
    case False
    with Cons show ?thesis by auto
  qed
qed

lemma scopeIndex_eq: "scopeIndex m = map_option index (Option.bind (scope m) workspaceFolder)"
  by (simp add: scopeIndex_def split: option.splits)

lemma filter_key_single:
  assumes "distinct (map f xs)" and "m \<in> set xs"
  shows "filter (\<lambda>x. f x = f m) xs = [m]"
  using assms
proof (induction xs)
  case Nil
  then show ?case by simp
next
  case (Cons a xs)
  from Cons.prems(1) have na: "f a \<notin> f ` set xs" and d: "distinct (map f xs)" by simp_all
  show ?case
  proof (cases "a = m")
    case True
    from na have "\<forall>x\<in>set xs. f x \<noteq> f a" by (metis imageI)
    then have "filter (\<lambda>x. f x = f a) xs = []" by (simp add: filter_empty_conv)
    with True show ?thesis by simp
  next
    case False
    with Cons.prems(2) have mx: "m \<in> set xs" by simp
    with na have "f a \<noteq> f m" by (metis imageI)
    with Cons.IH[OF d mx] show ?thesis by simp
  qed
qed

lemma filter_distinct_key:
  assumes "distinct (map f xs)"
  shows "filter (\<lambda>x. f x = k \<and> P x) xs =
           (case List.find (\<lambda>x. f x = k) (rev xs) of
              None \<Rightarrow> []
            | Some x \<Rightarrow> if P x then [x] else [])"
proof (cases "\<exists>x\<in>set xs. f x = k")
  case False
  then have "List.find (\<lambda>x. f x = k) (rev xs) = None" by (auto simp: find_None_iff)
  moreover from False have "filter (\<lambda>x. f x = k \<and> P x) xs = []" by (auto simp: filter_empty_conv)
  ultimately show ?thesis by simp
next
  case True
  then obtain m where m: "m \<in> set xs" "f m = k" by blast
  from find_distinct_key[OF assms m(1)] m(2)
  have f: "List.find (\<lambda>x. f x = k) (rev xs) = Some m" by simp
  from filter_key_single[OF assms m(1)] m(2) have one: "filter (\<lambda>x. f x = k) xs = [m]" by simp
  have "filter (\<lambda>x. f x = k \<and> P x) xs = filter P (filter (\<lambda>x. f x = k) xs)"
    by (simp add: conj_commute)
  with one f show ?thesis by simp
qed

lemma changedFor_filter:
  assumes "distinct (map extensionIdentifier os)"
  shows "changedFor os m =
           filter (\<lambda>om. extensionIdentifier om = extensionIdentifier m
                    \<and> (mtype m \<noteq> mtype om \<or> mvalue m \<noteq> mvalue om
                         \<or> map_option index (Option.bind (scope m) workspaceFolder)
                            \<noteq> map_option index (Option.bind (scope om) workspaceFolder))) os"
  unfolding filter_distinct_key[OF assms] changedFor_def scopeIndex_eq by simp

text \<open>
  C9, as the code has it. Let \<open>cs\<close> and \<open>os\<close> be the sequences of a variable in
  \<open>current\<close> and in \<open>other\<close>, each with one mutator per extension at most. If the mutator
  of extension \<open>E\<close> in \<open>os\<close> differs from the one in \<open>cs\<close> in type, in value (as
  \<open>Append y\<close> from \<open>Append x\<close>) or in the index of the workspace folder of its scope, and
  the mutators of the other extensions do not differ, then \<open>diff current other\<close> returns a
  result whose \<open>changed\<close> map holds for the variable exactly the mutator of \<open>E\<close> from
  \<open>os\<close>. In general the entries recorded for the variable are, for each mutator of \<open>cs\<close>
  in order, the mutator of the same extension in \<open>os\<close> if it differs in type, value or
  folder index; none recorded means no entry for the variable.
\<close>

theorem C9_changed_reports_other:
  assumes "distinct (map fst (variableMap current))"
    and "map_of (variableMap current) v = Some cs"
    and "map_of (variableMap other) v = Some os"
    and "distinct (map extensionIdentifier cs)"
    and "distinct (map extensionIdentifier os)"
  shows "(mc \<in> set cs \<and> mo \<in> set os \<and> extensionIdentifier mc = extensionIdentifier mo
          \<and> (mtype mc \<noteq> mtype mo \<or> mvalue mc \<noteq> mvalue mo
               \<or> map_option index (Option.bind (scope mc) workspaceFolder)
                  \<noteq> map_option index (Option.bind (scope mo) workspaceFolder))
          \<and> (\<forall>m\<in>set cs. \<forall>om\<in>set os.
                extensionIdentifier m = extensionIdentifier om
                \<and> extensionIdentifier m \<noteq> extensionIdentifier mc
                \<longrightarrow> mtype m = mtype om \<and> mvalue m = mvalue om
                    \<and> map_option index (Option.bind (scope m) workspaceFolder)
                       = map_option index (Option.bind (scope om) workspaceFolder))
          \<longrightarrow> (\<exists>d. diff current other = Some d \<and> map_of (changed d) v = Some [mo]))
       \<and> map_of (findChanged current other) v =
           (let r = concat (map (\<lambda>m. filter (\<lambda>om. extensionIdentifier om = extensionIdentifier m
                       \<and> (mtype m \<noteq> mtype om \<or> mvalue m \<noteq> mvalue om
                            \<or> map_option index (Option.bind (scope m) workspaceFolder)
                               \<noteq> map_option index (Option.bind (scope om) workspaceFolder))) os) cs)
            in if r = [] then None else Some r)
       \<and> (\<forall>d. diff current other = Some d \<longrightarrow> changed d = findChanged current other)"
proof -
  let ?D = "\<lambda>m om. mtype m \<noteq> mtype om \<or> mvalue m \<noteq> mvalue om
                       \<or> map_option index (Option.bind (scope m) workspaceFolder)
                          \<noteq> map_option index (Option.bind (scope om) workspaceFolder)"
  define D :: "IExtensionOwnedEnvironmentVariableMutator \<Rightarrow> IExtensionOwnedEnvironmentVariableMutator \<Rightarrow> bool"
    where "D = ?D"
  define g where "g = (\<lambda>m. filter (\<lambda>om. extensionIdentifier om = extensionIdentifier m \<and> D m om) os)"
  have cf: "changedFor os = g"
    using changedFor_filter[OF assms(5)] by (simp add: fun_eq_iff g_def D_def)
  have look: "map_of (findChanged current other) v =
      (if concat (map g cs) = [] then None else Some (concat (map g cs)))"
    using map_of_findChanged[OF assms(1,2,3)] unfolding cf .
  have exact: "map_of (findChanged current other) v =
           (let r = concat (map g cs) in if r = [] then None else Some r)"
    using look by (simp only: Let_def)
  have fields: "\<forall>d. diff current other = Some d \<longrightarrow> changed d = findChanged current other"
    by (auto simp: diff_def Let_def split: if_splits)
  have scenario: "\<exists>d. diff current other = Some d \<and> map_of (changed d) v = Some [mo]"
    if mc: "mc \<in> set cs" and mo: "mo \<in> set os"
      and ext: "extensionIdentifier mc = extensionIdentifier mo" and d: "D mc mo"
      and rest: "\<forall>m\<in>set cs. \<forall>om\<in>set os.
                extensionIdentifier m = extensionIdentifier om
                \<and> extensionIdentifier m \<noteq> extensionIdentifier mc
                \<longrightarrow> \<not> D m om"
  proof -
    have "g mc = filter (D mc) (filter (\<lambda>om. extensionIdentifier om = extensionIdentifier mo) os)"
      by (simp add: g_def ext conj_commute)
    also have "\<dots> = filter (D mc) [mo]"
      by (simp only: filter_key_single[OF assms(5) mo])
    also have "\<dots> = [mo]" using d by simp
    finally have one: "g mc = [mo]" .
    have injc: "inj_on extensionIdentifier (set cs)" using assms(4) by (simp add: distinct_map)
    have none: "g m = []" if m: "m \<in> set cs" "m \<noteq> mc" for m
    proof -
      from injc m mc have "extensionIdentifier m \<noteq> extensionIdentifier mc" by (auto dest: inj_onD)
      with rest m(1) show ?thesis by (auto simp: g_def filter_empty_conv)
    qed
    have "distinct cs" using assms(4) by (simp add: distinct_map)
    then have "concat (map g cs) = g mc"
      using mc none by (intro concat_map_single) auto
    with one look have l: "map_of (findChanged current other) v = Some [mo]" by simp
    then have "findChanged current other \<noteq> []" by auto
    then have "diff current other = Some \<lparr>added = findAdded current other,
        changed = findChanged current other, removed = findRemoved current other\<rparr>"
      by (simp add: diff_def Let_def)
    with l show ?thesis by simp
  qed
  have rest_eq: "(\<forall>m\<in>set cs. \<forall>om\<in>set os.
                extensionIdentifier m = extensionIdentifier om
                \<and> extensionIdentifier m \<noteq> extensionIdentifier mc
                \<longrightarrow> mtype m = mtype om \<and> mvalue m = mvalue om
                    \<and> map_option index (Option.bind (scope m) workspaceFolder)
                       = map_option index (Option.bind (scope om) workspaceFolder))
     = (\<forall>m\<in>set cs. \<forall>om\<in>set os.
                extensionIdentifier m = extensionIdentifier om
                \<and> extensionIdentifier m \<noteq> extensionIdentifier mc
                \<longrightarrow> \<not> D m om)"
    unfolding D_def by blast
  from scenario have s: "mc \<in> set cs \<and> mo \<in> set os \<and> extensionIdentifier mc = extensionIdentifier mo
          \<and> D mc mo
          \<and> (\<forall>m\<in>set cs. \<forall>om\<in>set os.
                extensionIdentifier m = extensionIdentifier om
                \<and> extensionIdentifier m \<noteq> extensionIdentifier mc
                \<longrightarrow> \<not> D m om)
          \<longrightarrow> (\<exists>d. diff current other = Some d \<and> map_of (changed d) v = Some [mo])"
    by blast
  from s exact fields show ?thesis
    unfolding rest_eq g_def D_def by (intro conjI)
qed

text \<open>
  C9 as stated fails when an extension has two mutators in a sequence: \<open>ext.e\<close> has
  \<open>Append x\<close> for \<open>FOO\<close> in \<open>current\<close>, and in \<open>other\<close> both \<open>Append y\<close> and, scoped to a
  folder, \<open>Append z\<close>. The entry recorded as changed is the scoped \<open>Append z\<close>, the last
  of the two in the sequence of \<open>other\<close>, not \<open>Append y\<close>.
\<close>

theorem C9_counterexample:
  "diff (MergedEnvironmentVariableCollection
           [(''ext.e'', [(''FOO'', \<lparr>variable = ''FOO'', mvalue = ''x'', mtype = Append, scope = None\<rparr>)])]
           None)
        (MergedEnvironmentVariableCollection
           [(''ext.e'',
             [(''FOO:::/w'', \<lparr>variable = ''FOO'', mvalue = ''z'', mtype = Append,
                  scope = Some \<lparr>workspaceFolder = Some \<lparr>fsPath = ''/w'', index = 0\<rparr>\<rparr>\<rparr>),
              (''FOO'', \<lparr>variable = ''FOO'', mvalue = ''y'', mtype = Append, scope = None\<rparr>)])]
           None)
   = Some \<lparr>added = [],
           changed = [(''FOO'', [\<lparr>variable = ''FOO'', mvalue = ''z'', mtype = Append,
                                  scope = Some \<lparr>workspaceFolder = Some \<lparr>fsPath = ''/w'', index = 0\<rparr>\<rparr>,
                                  extensionIdentifier = ''ext.e''\<rparr>])],
           removed = []\<rparr>
   \<and> variableMap (MergedEnvironmentVariableCollection
           [(''ext.e'',
             [(''FOO:::/w'', \<lparr>variable = ''FOO'', mvalue = ''z'', mtype = Append,
                  scope = Some \<lparr>workspaceFolder = Some \<lparr>fsPath = ''/w'', index = 0\<rparr>\<rparr>\<rparr>),
              (''FOO'', \<lparr>variable = ''FOO'', mvalue = ''y'', mtype = Append, scope = None\<rparr>)])]
           None)
     = [(''FOO'',
         [\<lparr>variable = ''FOO'', mvalue = ''y'', mtype = Append, scope = None,
            extensionIdentifier = ''ext.e''\<rparr>,
          \<lparr>variable = ''FOO'', mvalue = ''z'', mtype = Append,
            scope = Some \<lparr>workspaceFolder = Some \<lparr>fsPath = ''/w'', index = 0\<rparr>\<rparr>,
            extensionIdentifier = ''ext.e''\<rparr>])]"
  by (simp add: MergedEnvironmentVariableCollection_def mergeCollection_def mergeMutator_def
        skippedByScope_def ownedBy_def diff_def findAdded_def findRemoved_def findChanged_def
        getMissingMutatorsFromArray_def getChangedMutatorsFromArray_def scopeIndex_def)

theorem C9_witness:
  "map_of (changed (the (diff
      \<lparr>variableMap = [(''FOO'',
          [\<lparr>variable = ''FOO'', mvalue = ''p'', mtype = Prepend, scope = None, extensionIdentifier = ''ext.f''\<rparr>,
           \<lparr>variable = ''FOO'', mvalue = ''x'', mtype = Append, scope = None, extensionIdentifier = ''ext.e''\<rparr>])],
        owningWorkspace = None\<rparr>
      \<lparr>variableMap = [(''FOO'',
          [\<lparr>variable = ''FOO'', mvalue = ''p'', mtype = Prepend, scope = None, extensionIdentifier = ''ext.f''\<rparr>,
           \<lparr>variable = ''FOO'', mvalue = ''y'', mtype = Append, scope = None, extensionIdentifier = ''ext.e''\<rparr>])],
        owningWorkspace = None\<rparr>))) ''FOO''
   = Some [\<lparr>variable = ''FOO'', mvalue = ''y'', mtype = Append, scope = None, extensionIdentifier = ''ext.e''\<rparr>]
   \<and> map_of (changed (the (diff
      \<lparr>variableMap = [(''FOO'',
          [\<lparr>variable = ''FOO'', mvalue = ''x'', mtype = Append,
             scope = Some \<lparr>workspaceFolder = Some \<lparr>fsPath = ''/w'', index = 0\<rparr>\<rparr>,
             extensionIdentifier = ''ext.e''\<rparr>])],
        owningWorkspace = None\<rparr>
      \<lparr>variableMap = [(''FOO'',
          [\<lparr>variable = ''FOO'', mvalue = ''x'', mtype = Append,
             scope = Some \<lparr>workspaceFolder = Some \<lparr>fsPath = ''/w'', index = 1\<rparr>\<rparr>,
             extensionIdentifier = ''ext.e''\<rparr>])],
        owningWorkspace = None\<rparr>))) ''FOO''
   = Some [\<lparr>variable = ''FOO'', mvalue = ''x'', mtype = Append,
             scope = Some \<lparr>workspaceFolder = Some \<lparr>fsPath = ''/w'', index = 1\<rparr>\<rparr>,
             extensionIdentifier = ''ext.e''\<rparr>]"
proof -
  let ?f = "\<lparr>variable = ''FOO'', mvalue = ''p'', mtype = Prepend, scope = None, extensionIdentifier = ''ext.f''\<rparr>"
  let ?mc = "\<lparr>variable = ''FOO'', mvalue = ''x'', mtype = Append, scope = None, extensionIdentifier = ''ext.e''\<rparr>"
  let ?mo = "\<lparr>variable = ''FOO'', mvalue = ''y'', mtype = Append, scope = None, extensionIdentifier = ''ext.e''\<rparr>"
  let ?cur = "\<lparr>variableMap = [(''FOO'', [?f, ?mc])], owningWorkspace = None\<rparr>"
  let ?oth = "\<lparr>variableMap = [(''FOO'', [?f, ?mo])], owningWorkspace = None\<rparr>"
  let ?ic = "\<lparr>variable = ''FOO'', mvalue = ''x'', mtype = Append,
             scope = Some \<lparr>workspaceFolder = Some \<lparr>fsPath = ''/w'', index = 0\<rparr>\<rparr>,
             extensionIdentifier = ''ext.e''\<rparr>"
  let ?io = "\<lparr>variable = ''FOO'', mvalue = ''x'', mtype = Append,
             scope = Some \<lparr>workspaceFolder = Some \<lparr>fsPath = ''/w'', index = 1\<rparr>\<rparr>,
             extensionIdentifier = ''ext.e''\<rparr>"
  let ?icur = "\<lparr>variableMap = [(''FOO'', [?ic])], owningWorkspace = None\<rparr>"
  let ?ioth = "\<lparr>variableMap = [(''FOO'', [?io])], owningWorkspace = None\<rparr>"
  have h1: "distinct (map fst (variableMap ?cur))" by simp
  have h2: "map_of (variableMap ?cur) ''FOO'' = Some [?f, ?mc]" by simp
  have h3: "map_of (variableMap ?oth) ''FOO'' = Some [?f, ?mo]" by simp
  have h4: "distinct (map extensionIdentifier [?f, ?mc])" by simp
  have h5: "distinct (map extensionIdentifier [?f, ?mo])" by simp
  have h6: "?mc \<in> set [?f, ?mc] \<and> ?mo \<in> set [?f, ?mo] \<and> extensionIdentifier ?mc = extensionIdentifier ?mo
          \<and> (mtype ?mc \<noteq> mtype ?mo \<or> mvalue ?mc \<noteq> mvalue ?mo
               \<or> map_option index (Option.bind (scope ?mc) workspaceFolder)
                  \<noteq> map_option index (Option.bind (scope ?mo) workspaceFolder))
          \<and> (\<forall>m\<in>set [?f, ?mc]. \<forall>om\<in>set [?f, ?mo].
                extensionIdentifier m = extensionIdentifier om
                \<and> extensionIdentifier m \<noteq> extensionIdentifier ?mc
                \<longrightarrow> mtype m = mtype om \<and> mvalue m = mvalue om
                    \<and> map_option index (Option.bind (scope m) workspaceFolder)
                       = map_option index (Option.bind (scope om) workspaceFolder))"
    by simp
  from C9_changed_reports_other[OF h1 h2 h3 h4 h5, THEN conjunct1, THEN mp, OF h6]
  obtain d where d: "diff ?cur ?oth = Some d" "map_of (changed d) ''FOO'' = Some [?mo]" by blast
  have i1: "distinct (map fst (variableMap ?icur))" by simp
  have i2: "map_of (variableMap ?icur) ''FOO'' = Some [?ic]" by simp
  have i3: "map_of (variableMap ?ioth) ''FOO'' = Some [?io]" by simp
  have i4: "distinct (map extensionIdentifier [?ic])" by simp
  have i5: "distinct (map extensionIdentifier [?io])" by simp
  have i6: "?ic \<in> set [?ic] \<and> ?io \<in> set [?io] \<and> extensionIdentifier ?ic = extensionIdentifier ?io
          \<and> (mtype ?ic \<noteq> mtype ?io \<or> mvalue ?ic \<noteq> mvalue ?io
               \<or> map_option index (Option.bind (scope ?ic) workspaceFolder)
                  \<noteq> map_option index (Option.bind (scope ?io) workspaceFolder))
          \<and> (\<forall>m\<in>set [?ic]. \<forall>om\<in>set [?io].
                extensionIdentifier m = extensionIdentifier om
                \<and> extensionIdentifier m \<noteq> extensionIdentifier ?ic
                \<longrightarrow> mtype m = mtype om \<and> mvalue m = mvalue om
                    \<and> map_option index (Option.bind (scope m) workspaceFolder)
                       = map_option index (Option.bind (scope om) workspaceFolder))"
    by simp
  from C9_changed_reports_other[OF i1 i2 i3 i4 i5, THEN conjunct1, THEN mp, OF i6]
  obtain d' where d': "diff ?icur ?ioth = Some d'" "map_of (changed d') ''FOO'' = Some [?io]" by blast
  from d d' show ?thesis by simp
qed

section \<open>Properties of the apply\<close>

lemma applyToProcessEnvironment_eq:
  "applyToProcessEnvironment lc isWindows this env r s
     = applyVariables lc r isWindows (lowerToActualVariableNames lc env) (variableMap this) (map_of env) s"
proof -
  have "applyVariables lc r isWindows (if isWindows then lowerToActualVariableNames lc env else Map.empty) vs env' s'
          = applyVariables lc r isWindows (lowerToActualVariableNames lc env) vs env' s'" for vs env' s'
    by (induction vs arbitrary: env' s')
       (auto simp: actualVariable_def split: prod.splits option.splits)
  then show ?thesis by (simp add: applyToProcessEnvironment_def)
qed

lemma applyMutators_append:
  "applyMutators r k (ms1 @ ms2) env s =
     (case applyMutators r k ms1 env s of
        (Some e, env', s') \<Rightarrow> (Some e, env', s')
      | (None, env', s') \<Rightarrow> applyMutators r k ms2 env' s')"
  by (induction ms1 arbitrary: env s) (auto split: prod.splits sum.splits option.splits)

lemma applyVariables_append:
  "applyVariables lc r w lower (vs1 @ vs2) env s =
     (case applyVariables lc r w lower vs1 env s of
        (Some e, env', s') \<Rightarrow> (Some e, env', s')
      | (None, env', s') \<Rightarrow> applyVariables lc r w lower vs2 env' s')"
  by (induction vs1 arbitrary: env s) (auto split: prod.splits option.splits)

lemma apply_snoc:
  assumes "applyToProcessEnvironment lc w (X\<lparr>variableMap := vs1\<rparr>) env r s = (None, env1, s1)"
  shows "applyToProcessEnvironment lc w (X\<lparr>variableMap := vs1 @ [(var, ms)]\<rparr>) env r s
           = applyMutators r (actualVariable lc w (lowerToActualVariableNames lc env) var) ms env1 s1"
proof -
  from assms have "applyVariables lc r w (lowerToActualVariableNames lc env) vs1 (map_of env) s = (None, env1, s1)"
    by (simp add: applyToProcessEnvironment_eq)
  then show ?thesis
    by (simp add: applyToProcessEnvironment_eq applyVariables_append split: prod.splits option.splits)
qed

lemma dom_setProperty: "dom obj \<subseteq> dom (setProperty k v obj) \<and> dom (setProperty k v obj) \<subseteq> insert k (dom obj)"
  by (auto simp: setProperty_def)

lemma setProperty_other: "k' \<noteq> k \<Longrightarrow> setProperty k v obj k' = obj k'"
  by (simp add: setProperty_def)

lemma dom_setProperty_own: "k \<in> dom obj \<Longrightarrow> dom (setProperty k v obj) = dom obj"
  by (auto simp: setProperty_def)

lemma setProperty_created: "k \<noteq> ''__proto__'' \<Longrightarrow> k \<in> dom (setProperty k v obj)"
  by (simp add: setProperty_def)

lemma dom_applyMutatorType:
  "dom env \<subseteq> dom (applyMutatorType t k v env) \<and> dom (applyMutatorType t k v env) \<subseteq> insert k (dom env)"
  by (cases t) (simp_all add: dom_setProperty)

lemma applyMutatorType_other:
  "k' \<noteq> k \<Longrightarrow> applyMutatorType t k v env k' = env k'"
  by (cases t) (simp_all add: setProperty_other)

lemma applyMutatorType_created:
  "k \<noteq> ''__proto__'' \<Longrightarrow> k \<in> dom (applyMutatorType t k v env)"
  by (cases t) (simp_all add: setProperty_created)

lemma applyMutators_cases:
  assumes "applyMutators r k (m # ms) env s = res"
  obtains e s1 where "resolveValue r (mvalue m) s = (Inl e, s1)" "res = (Some e, env, s1)"
  | v s1 where "resolveValue r (mvalue m) s = (Inr v, s1)"
      "applyMutators r k ms (applyMutatorType (mtype m) k v env) s1 = res"
proof (cases "resolveValue r (mvalue m) s")
  case (Pair x s1)
  show ?thesis
  proof (cases x)
    case (Inl e)
    with Pair assms that(1) show ?thesis by simp
  next
    case (Inr v)
    with Pair assms that(2) show ?thesis by simp
  qed
qed

lemma applyMutators_other:
  "applyMutators r k ms env s = (err, env', s') \<Longrightarrow> k' \<noteq> k \<Longrightarrow> env' k' = env k'"
proof (induction ms arbitrary: env s)
  case Nil
  then show ?case by simp
next
  case (Cons m ms)
  from Cons.prems(1) show ?case
  proof (cases rule: applyMutators_cases)
    case (1 e s1)
    then show ?thesis by simp
  next
    case (2 v s1)
    from Cons.IH[OF 2(2) Cons.prems(2)] show ?thesis
      using Cons.prems(2) by (simp add: applyMutatorType_other)
  qed
qed

lemma applyMutators_dom:
  "applyMutators r k ms env s = (err, env', s') \<Longrightarrow>
     dom env \<subseteq> dom env' \<and> dom env' \<subseteq> insert k (dom env)"
proof (induction ms arbitrary: env s)
  case Nil
  then show ?case by auto
next
  case (Cons m ms)
  from Cons.prems(1) show ?case
  proof (cases rule: applyMutators_cases)
    case (1 e s1)
    then show ?thesis by auto
  next
    case (2 v s1)
    from Cons.IH[OF 2(2)] dom_applyMutatorType[of env "mtype m" k v] show ?thesis
      by blast
  qed
qed

lemma applyMutators_dom_own:
  assumes "applyMutators r k ms env s = (err, env', s')" and "k \<in> dom env"
  shows "dom env' = dom env"
  using applyMutators_dom[OF assms(1)] assms(2) by blast

lemma applyMutators_key_present:
  assumes "applyMutators r k ms env s = (None, env', s')" and "ms \<noteq> []" and "k \<noteq> ''__proto__''"
  shows "k \<in> dom env'"
proof (cases ms)
  case Nil
  with assms(2) show ?thesis by simp
next
  case (Cons m ms')
  from assms(1)[unfolded Cons] show ?thesis
  proof (cases rule: applyMutators_cases)
    case (1 e s1)
    then show ?thesis by simp
  next
    case (2 v s1)
    from applyMutators_dom[OF 2(2)] applyMutatorType_created[OF assms(3), of "mtype m" v env]
    show ?thesis by blast
  qed
qed

lemma applyVariables_dom:
  "applyVariables lc r w lower vs env s = (err, env', s') \<Longrightarrow>
     dom env \<subseteq> dom env' \<and> dom env' \<subseteq> dom env \<union> actualVariable lc w lower ` fst ` set vs"
proof (induction vs arbitrary: env s)
  case Nil
  then show ?case by auto
next
  case (Cons x vs)
  obtain var ms where x: "x = (var, ms)" by (cases x)
  obtain e1 env1 s1 where am: "applyMutators r (actualVariable lc w lower var) ms env s = (e1, env1, s1)"
    by (cases "applyMutators r (actualVariable lc w lower var) ms env s") auto
  note k1 = applyMutators_dom[OF am]
  have img: "actualVariable lc w lower ` fst ` set (x # vs)
      = insert (actualVariable lc w lower var) (actualVariable lc w lower ` fst ` set vs)"
    by (simp add: x)
  show ?case
  proof (cases e1)
    case (Some e)
    with Cons.prems am x have "env' = env1" by simp
    with k1 show ?thesis unfolding img by blast
  next
    case None
    with Cons.prems am x have "applyVariables lc r w lower vs env1 s1 = (err, env', s')" by simp
    from Cons.IH[OF this] k1 show ?thesis unfolding img by blast
  qed
qed

lemma lowerToActualVariableNames_snoc:
  "lowerToActualVariableNames lc (env @ [(k, v)])
     = setProperty (lc k) k (lowerToActualVariableNames lc env)"
  by (simp add: lowerToActualVariableNames_def)

lemma lowerToActualVariableNames_proto:
  "lowerToActualVariableNames lc env ''__proto__'' = None"
proof (induction env rule: rev_induct)
  case Nil
  show ?case by (simp add: lowerToActualVariableNames_def)
next
  case (snoc x env)
  obtain k v where x: "x = (k, v)" by (cases x)
  from snoc show ?case
    by (simp add: x lowerToActualVariableNames_snoc setProperty_def)
qed

lemma lowerToActualVariableNames_find:
  "lowerToActualVariableNames lc env l =
     (if l = ''__proto__'' then None
      else (case List.find (\<lambda>k. lc k = l) (rev (map fst env)) of None \<Rightarrow> None | Some k \<Rightarrow> Some k))"
proof (cases "l = ''__proto__''")
  case True
  then show ?thesis by (simp add: lowerToActualVariableNames_proto)
next
  case False
  have "lowerToActualVariableNames lc env l =
      (case List.find (\<lambda>k. lc k = l) (rev (map fst env)) of None \<Rightarrow> None | Some k \<Rightarrow> Some k)"
  proof (induction env rule: rev_induct)
    case Nil
    show ?case by (simp add: lowerToActualVariableNames_def)
  next
    case (snoc x env)
    obtain k v where x: "x = (k, v)" by (cases x)
    from snoc False show ?case
      by (auto simp: x lowerToActualVariableNames_snoc setProperty_def)
  qed
  with False show ?thesis by simp
qed

lemma find_append_cases:
  "List.find P (xs @ ys) = (case List.find P xs of None \<Rightarrow> List.find P ys | Some x \<Rightarrow> Some x)"
  by (induction xs) auto

lemma lowerToActualVariableNames_last:
  assumes "map fst env = pre @ k # post" and "\<forall>k'\<in>set post. lc k' \<noteq> lc k" and "lc k \<noteq> ''__proto__''"
  shows "lowerToActualVariableNames lc env (lc k) = Some k"
proof -
  have "List.find (\<lambda>k'. lc k' = lc k) (rev post) = None"
    using assms(2) by (simp add: find_None_iff)
  then have "List.find (\<lambda>k'. lc k' = lc k) (rev (map fst env)) = Some k"
    by (simp add: assms(1) find_append_cases)
  with assms(3) show ?thesis by (simp add: lowerToActualVariableNames_find)
qed

lemma lowerToActualVariableNames_None:
  assumes "\<forall>k\<in>set (map fst env). lc k \<noteq> l"
  shows "lowerToActualVariableNames lc env l = None"
proof -
  have "List.find (\<lambda>k. lc k = l) (rev (map fst env)) = None"
    using assms by (simp add: find_None_iff)
  then show ?thesis by (simp add: lowerToActualVariableNames_find)
qed

lemma lowerToActualVariableNames_SomeD:
  "lowerToActualVariableNames lc env l = Some a \<Longrightarrow> a \<in> set (map fst env) \<and> lc a = l"
  by (auto simp: lowerToActualVariableNames_find split: if_splits option.splits dest: find_key_SomeD)

lemma actualVariable_last:
  assumes "map fst env = pre @ k # post" and "\<forall>k'\<in>set post. lc k' \<noteq> lc var" and "lc k = lc var"
    and "k \<noteq> []" and "lc var \<noteq> ''__proto__''"
  shows "actualVariable lc True (lowerToActualVariableNames lc env) var = k"
  using lowerToActualVariableNames_last[of env pre k post lc] assms
  by (simp add: actualVariable_def)

lemma actualVariable_no_match:
  assumes "\<forall>k\<in>set (map fst env). lc k \<noteq> lc var" and "objectPrototype (lc var) = None"
  shows "actualVariable lc isWindows (lowerToActualVariableNames lc env) var = var"
  using lowerToActualVariableNames_None[OF assms(1)] assms(2)
  by (simp add: actualVariable_def)

text \<open>
  C2, as the code has it. Let the resolver reject on mutator \<open>m\<close> of variable \<open>var\<close>,
  after the variables \<open>vs1\<close> before \<open>var\<close> were processed in full, giving the environment
  \<open>env1\<close>, and the mutators \<open>ms1\<close> of \<open>var\<close> before \<open>m\<close> were applied to the key of
  \<open>var\<close>, giving \<open>env2\<close>. Then the call rejects with that reason at once: the environment
  it leaves is \<open>env2\<close> and the resolver is not called again, so nothing of the mutators
  after \<open>m\<close> or of the variables after \<open>var\<close> is applied. Every key but the key of
  \<open>var\<close> has in \<open>env2\<close> the value it has in \<open>env1\<close>: a variable of \<open>vs1\<close> keeps its
  final value unless it resolves to the key of \<open>var\<close>, which does not happen off Windows,
  where the variables are their own keys. When \<open>m\<close> is the first mutator of \<open>var\<close>,
  \<open>env2\<close> is \<open>env1\<close>.
\<close>

theorem C2_resolver_failure:
  assumes "variableMap this = vs1 @ (var, ms1 @ m # ms2) # vs2"
    and "applyToProcessEnvironment toLowerCase isWindows (this\<lparr>variableMap := vs1\<rparr>) env resolver s
           = (None, env1, s1)"
    and "applyMutators resolver
           (actualVariable toLowerCase isWindows (lowerToActualVariableNames toLowerCase env) var)
           ms1 env1 s1
           = (None, env2, s2)"
    and "resolveValue resolver (mvalue m) s2 = (Inl e, s3)"
  shows "applyToProcessEnvironment toLowerCase isWindows this env resolver s = (Some e, env2, s3)
       \<and> (\<forall>k. k \<noteq> actualVariable toLowerCase isWindows (lowerToActualVariableNames toLowerCase env) var
              \<longrightarrow> env2 k = env1 k)
       \<and> (\<forall>v'\<in>fst ` set vs1.
             actualVariable toLowerCase isWindows (lowerToActualVariableNames toLowerCase env) v'
               \<noteq> actualVariable toLowerCase isWindows (lowerToActualVariableNames toLowerCase env) var
             \<longrightarrow> env2 (actualVariable toLowerCase isWindows (lowerToActualVariableNames toLowerCase env) v')
                 = env1 (actualVariable toLowerCase isWindows (lowerToActualVariableNames toLowerCase env) v'))
       \<and> (\<not> isWindows \<and> distinct (map fst (variableMap this))
             \<longrightarrow> (\<forall>v'\<in>fst ` set vs1. env2 v' = env1 v'))
       \<and> (ms1 = [] \<longrightarrow> env2 = env1)"
proof (intro conjI)
  let ?lower = "lowerToActualVariableNames toLowerCase env"
  let ?k = "actualVariable toLowerCase isWindows ?lower var"
  from assms(2) have 1: "applyVariables toLowerCase resolver isWindows ?lower vs1 (map_of env) s = (None, env1, s1)"
    by (simp add: applyToProcessEnvironment_eq)
  have "applyMutators resolver ?k (m # ms2) env2 s2 = (Some e, env2, s3)"
    by (simp add: assms(4))
  with assms(3) have 2: "applyMutators resolver ?k (ms1 @ m # ms2) env1 s1 = (Some e, env2, s3)"
    by (simp add: applyMutators_append)
  then have "applyVariables toLowerCase resolver isWindows ?lower ((var, ms1 @ m # ms2) # vs2) env1 s1
      = (Some e, env2, s3)"
    by simp
  with 1 show "applyToProcessEnvironment toLowerCase isWindows this env resolver s = (Some e, env2, s3)"
    by (simp add: applyToProcessEnvironment_eq assms(1) applyVariables_append)
  show other: "\<forall>k. k \<noteq> ?k \<longrightarrow> env2 k = env1 k"
    using applyMutators_other[OF assms(3)] by blast
  show "\<forall>v'\<in>fst ` set vs1.
             actualVariable toLowerCase isWindows ?lower v' \<noteq> ?k
             \<longrightarrow> env2 (actualVariable toLowerCase isWindows ?lower v')
                 = env1 (actualVariable toLowerCase isWindows ?lower v')"
    using other by blast
  show "\<not> isWindows \<and> distinct (map fst (variableMap this))
             \<longrightarrow> (\<forall>v'\<in>fst ` set vs1. env2 v' = env1 v')"
  proof (intro impI ballI)
    fix v'
    assume a: "\<not> isWindows \<and> distinct (map fst (variableMap this))" and v': "v' \<in> fst ` set vs1"
    from a have "?k = var" by (simp add: actualVariable_def)
    moreover from a v' have "v' \<noteq> var" unfolding assms(1) by auto
    ultimately show "env2 v' = env1 v'" using other by simp
  qed
  show "ms1 = [] \<longrightarrow> env2 = env1"
    using assms(3) by auto
qed

text \<open>
  C2 as stated fails on Windows: the environment has the key \<open>path\<close>, to which the
  variables \<open>Path\<close> and \<open>PATH\<close> both resolve. \<open>Path\<close> is processed in full and leaves
  \<open>0a!\<close>; the first mutator of \<open>PATH\<close> replaces that with \<open>z!\<close> before the resolver rejects
  on the second.
\<close>

theorem C2_counterexample:
  "applyToProcessEnvironment asciiToLowerCase True
     \<lparr>variableMap =
        [(''Path'', [\<lparr>variable = ''Path'', mvalue = ''a'', mtype = Append, scope = None,
                       extensionIdentifier = ''ext.a''\<rparr>])],
      owningWorkspace = None\<rparr>
     [(''path'', Some ''0'')]
     (Some rejectingResolver)
     (0::nat)
   = (None, [''path'' \<mapsto> Some ''0a!''], 1)
   \<and> applyToProcessEnvironment asciiToLowerCase True
     \<lparr>variableMap =
        [(''Path'', [\<lparr>variable = ''Path'', mvalue = ''a'', mtype = Append, scope = None,
                       extensionIdentifier = ''ext.a''\<rparr>]),
         (''PATH'', [\<lparr>variable = ''PATH'', mvalue = ''z'', mtype = Replace, scope = None,
                       extensionIdentifier = ''ext.b''\<rparr>,
                     \<lparr>variable = ''PATH'', mvalue = ''bad'', mtype = Append, scope = None,
                       extensionIdentifier = ''ext.a''\<rparr>])],
      owningWorkspace = None\<rparr>
     [(''path'', Some ''0'')]
     (Some rejectingResolver)
     (0::nat)
   = (Some ''rejected'', [''path'' \<mapsto> Some ''z!''], 3)"
  by (simp add: applyToProcessEnvironment_def actualVariable_def lowerToActualVariableNames_def
        asciiToLowerCase_def asciiToLowerCaseChar_def resolveValue_def rejectingResolver_def envOrEmpty_def setProperty_def
        numeral_3_eq_3)

theorem C2_witness:
  "applyToProcessEnvironment asciiToLowerCase False
     \<lparr>variableMap =
        [(''A'', [\<lparr>variable = ''A'', mvalue = ''a'', mtype = Append, scope = None, extensionIdentifier = ''ext.a''\<rparr>]),
         (''B'', [\<lparr>variable = ''B'', mvalue = ''b'', mtype = Replace, scope = None, extensionIdentifier = ''ext.b''\<rparr>,
                  \<lparr>variable = ''B'', mvalue = ''bad'', mtype = Append, scope = None, extensionIdentifier = ''ext.a''\<rparr>,
                  \<lparr>variable = ''B'', mvalue = ''c'', mtype = Append, scope = None, extensionIdentifier = ''ext.c''\<rparr>]),
         (''C'', [\<lparr>variable = ''C'', mvalue = ''c'', mtype = Prepend, scope = None, extensionIdentifier = ''ext.a''\<rparr>])],
      owningWorkspace = None\<rparr>
     [(''A'', Some ''0''), (''C'', Some ''1'')]
     (Some rejectingResolver)
     (0::nat)
   = (Some ''rejected'', map_of [(''A'', Some ''0a!''), (''C'', Some ''1''), (''B'', Some ''b!'')], 3)"
proof -
  let ?r = "Some rejectingResolver"
  let ?a = "\<lparr>variable = ''A'', mvalue = ''a'', mtype = Append, scope = None, extensionIdentifier = ''ext.a''\<rparr>"
  let ?b1 = "\<lparr>variable = ''B'', mvalue = ''b'', mtype = Replace, scope = None, extensionIdentifier = ''ext.b''\<rparr>"
  let ?b2 = "\<lparr>variable = ''B'', mvalue = ''bad'', mtype = Append, scope = None, extensionIdentifier = ''ext.a''\<rparr>"
  let ?b3 = "\<lparr>variable = ''B'', mvalue = ''c'', mtype = Append, scope = None, extensionIdentifier = ''ext.c''\<rparr>"
  let ?c = "\<lparr>variable = ''C'', mvalue = ''c'', mtype = Prepend, scope = None, extensionIdentifier = ''ext.a''\<rparr>"
  let ?X = "\<lparr>variableMap = [(''A'', [?a]), (''B'', [?b1, ?b2, ?b3]), (''C'', [?c])], owningWorkspace = None\<rparr>"
  let ?env = "[(''A'', Some ''0''), (''C'', Some ''1'')]"
  let ?env1 = "map_of [(''A'', Some ''0a!''), (''C'', Some ''1'')]"
  let ?env2 = "map_of [(''A'', Some ''0a!''), (''C'', Some ''1''), (''B'', Some ''b!'')]"
  have h1: "variableMap ?X = [(''A'', [?a])] @ (''B'', [?b1] @ ?b2 # [?b3]) # [(''C'', [?c])]" by simp
  have h2: "applyToProcessEnvironment asciiToLowerCase False (?X\<lparr>variableMap := [(''A'', [?a])]\<rparr>) ?env ?r 0
              = (None, ?env1, 1)"
    by (simp add: applyToProcessEnvironment_def actualVariable_def resolveValue_def rejectingResolver_def envOrEmpty_def
          setProperty_def fun_eq_iff)
  have h3: "applyMutators ?r (actualVariable asciiToLowerCase False (lowerToActualVariableNames asciiToLowerCase ?env) ''B'')
              [?b1] ?env1 1
              = (None, ?env2, 2)"
    by (simp add: actualVariable_def resolveValue_def rejectingResolver_def envOrEmpty_def setProperty_def fun_eq_iff
          numeral_2_eq_2)
  have h4: "resolveValue ?r (mvalue ?b2) 2 = (Inl ''rejected'', 3)"
    by (simp add: resolveValue_def rejectingResolver_def numeral_3_eq_3 numeral_2_eq_2)
  from C2_resolver_failure[OF h1 h2 h3 h4] show ?thesis by simp
qed

lemma asciiToLowerCase_Path: "asciiToLowerCase ''Path'' = ''path''"
  by (simp add: asciiToLowerCase_def asciiToLowerCaseChar_def)

lemma asciiToLowerCase_PATH: "asciiToLowerCase ''PATH'' = ''path''"
  by (simp add: asciiToLowerCase_def asciiToLowerCaseChar_def)

lemma objectPrototype_path: "objectPrototype ''path'' = None"
  by (simp add: objectPrototype_def)

lemma objectPrototype_not_Path: "objectPrototype x \<noteq> Some ''Path''"
  by (simp add: objectPrototype_def)

lemma objectPrototype_proto: "objectPrototype ''__proto__'' \<noteq> None"
  by (simp add: objectPrototype_def)

lemma apply_dom:
  assumes "applyToProcessEnvironment lc w X env r s = (err, env', s')"
  shows "fst ` set env \<subseteq> dom env'
       \<and> dom env' \<subseteq> fst ` set env \<union> actualVariable lc w (lowerToActualVariableNames lc env) ` fst ` set (variableMap X)"
proof -
  from assms have "applyVariables lc r w (lowerToActualVariableNames lc env) (variableMap X) (map_of env) s
      = (err, env', s')"
    by (simp add: applyToProcessEnvironment_eq)
  from applyVariables_dom[OF this] show ?thesis
    by (simp add: dom_map_of_conv_image_fst)
qed

lemma actualVariable_created:
  assumes "k = actualVariable lc True (lowerToActualVariableNames lc env) var"
    and "k \<notin> fst ` set env" and "objectPrototype (lc var) = None" and "[] \<notin> fst ` set env"
  shows "k = var \<and> (\<forall>k0\<in>fst ` set env. lc k0 \<noteq> lc var)"
proof (cases "lowerToActualVariableNames lc env (lc var)")
  case None
  with assms(1,3) have kv: "k = var" by (simp add: actualVariable_def)
  from assms(3) objectPrototype_proto have np: "lc var \<noteq> ''__proto__''" by auto
  have "\<forall>k0\<in>fst ` set env. lc k0 \<noteq> lc var"
  proof (rule ccontr)
    assume "\<not> (\<forall>k0\<in>fst ` set env. lc k0 \<noteq> lc var)"
    then have "List.find (\<lambda>k. lc k = lc var) (rev (map fst env)) \<noteq> None"
      by (auto simp: find_None_iff)
    with None np show False by (auto simp: lowerToActualVariableNames_find)
  qed
  with kv show ?thesis by simp
next
  case (Some a)
  from lowerToActualVariableNames_SomeD[OF Some] have a: "a \<in> fst ` set env" by simp
  with assms(4) have "a \<noteq> []" by metis
  with Some assms(1) have "k = a" by (simp add: actualVariable_def)
  with a assms(2) show ?thesis by simp
qed

text \<open>
  C6, as the code has it. On Windows, let the variables \<open>vs1\<close> be processed, giving
  \<open>env1\<close>, and let \<open>var\<close> with the mutators \<open>ms\<close> come next. If keys of the environment
  the call was given have the lower case of \<open>var\<close>, the mutators are applied to the last
  of them in the order of the keys, which creates no key (the key being non-empty and the
  lower case not \<^verbatim>\<open>__proto__\<close>). If no key has the lower case of \<open>var\<close>, and plain objects
  inherit nothing under that lower case, the mutators are applied to \<open>var\<close> itself. In
  particular, when \<open>PATH\<close> is the one key of the lower case \<open>path\<close>, the mutators of the
  variable \<open>Path\<close> are applied to \<open>PATH\<close> and there is no key \<open>Path\<close> afterwards. For any
  collection whose variables have no inherited lower case, and an environment without the
  empty key, every key the call creates is a variable of the collection that no key of the
  environment matches.
\<close>

theorem C6_case_insensitive_apply:
  assumes "applyToProcessEnvironment toLowerCase True (X\<lparr>variableMap := vs1\<rparr>) env resolver s
             = (None, env1, s1)"
  shows "(map fst env = pre @ k # post \<and> toLowerCase k = toLowerCase var
            \<and> (\<forall>k'\<in>set post. toLowerCase k' \<noteq> toLowerCase var)
            \<and> k \<noteq> [] \<and> toLowerCase var \<noteq> ''__proto__''
          \<longrightarrow> applyToProcessEnvironment toLowerCase True (X\<lparr>variableMap := vs1 @ [(var, ms)]\<rparr>)
                 env resolver s
               = applyMutators resolver k ms env1 s1
            \<and> k \<in> dom env1
            \<and> dom (fst (snd (applyMutators resolver k ms env1 s1))) = dom env1)
       \<and> ((\<forall>k\<in>set (map fst env). toLowerCase k \<noteq> toLowerCase var)
            \<and> objectPrototype (toLowerCase var) = None
          \<longrightarrow> applyToProcessEnvironment toLowerCase True (X\<lparr>variableMap := vs1 @ [(var, ms)]\<rparr>)
                 env resolver s
               = applyMutators resolver var ms env1 s1)
       \<and> (toLowerCase = asciiToLowerCase \<and> ''PATH'' \<in> set (map fst env)
            \<and> (\<forall>k\<in>set (map fst env). asciiToLowerCase k = ''path'' \<longrightarrow> k = ''PATH'')
          \<longrightarrow> applyToProcessEnvironment toLowerCase True (X\<lparr>variableMap := vs1 @ [(''Path'', ms)]\<rparr>)
                 env resolver s
               = applyMutators resolver ''PATH'' ms env1 s1
            \<and> ''Path'' \<notin> dom (fst (snd (applyMutators resolver ''PATH'' ms env1 s1)))
            \<and> dom (fst (snd (applyMutators resolver ''PATH'' ms env1 s1))) = dom env1)
       \<and> (\<forall>err env' t' c. applyToProcessEnvironment toLowerCase True Y env resolver s = (err, env', t')
             \<and> c \<in> dom env' \<and> c \<notin> set (map fst env)
             \<and> (\<forall>v\<in>fst ` set (variableMap Y). objectPrototype (toLowerCase v) = None)
             \<and> [] \<notin> set (map fst env)
          \<longrightarrow> c \<in> fst ` set (variableMap Y)
              \<and> (\<forall>k0\<in>set (map fst env). toLowerCase k0 \<noteq> toLowerCase c))"
proof (intro conjI)
  let ?lower = "lowerToActualVariableNames toLowerCase env"
  note snoc = apply_snoc[OF assms]
  note dom1 = apply_dom[OF assms]
  have matched: "applyToProcessEnvironment toLowerCase True (X\<lparr>variableMap := vs1 @ [(var, ms)]\<rparr>)
                 env resolver s
               = applyMutators resolver k ms env1 s1
            \<and> k \<in> dom env1
            \<and> dom (fst (snd (applyMutators resolver k ms env1 s1))) = dom env1"
    if a: "map fst env = pre @ k # post \<and> toLowerCase k = toLowerCase var
            \<and> (\<forall>k'\<in>set post. toLowerCase k' \<noteq> toLowerCase var)
            \<and> k \<noteq> [] \<and> toLowerCase var \<noteq> ''__proto__''" for pre k post var ms
  proof -
    from a have "actualVariable toLowerCase True ?lower var = k"
      by (intro actualVariable_last[of env pre k post]) auto
    with snoc have 1: "applyToProcessEnvironment toLowerCase True (X\<lparr>variableMap := vs1 @ [(var, ms)]\<rparr>)
                 env resolver s = applyMutators resolver k ms env1 s1"
      by simp
    from a have "k \<in> set (map fst env)" by simp
    with dom1 have 2: "k \<in> dom env1" by auto
    obtain err env2 s2 where r: "applyMutators resolver k ms env1 s1 = (err, env2, s2)"
      by (cases "applyMutators resolver k ms env1 s1") auto
    from applyMutators_dom_own[OF r 2] r
    have 3: "dom (fst (snd (applyMutators resolver k ms env1 s1))) = dom env1" by simp
    from 1 2 3 show ?thesis by blast
  qed
  from matched
  show "map fst env = pre @ k # post \<and> toLowerCase k = toLowerCase var
            \<and> (\<forall>k'\<in>set post. toLowerCase k' \<noteq> toLowerCase var)
            \<and> k \<noteq> [] \<and> toLowerCase var \<noteq> ''__proto__''
          \<longrightarrow> applyToProcessEnvironment toLowerCase True (X\<lparr>variableMap := vs1 @ [(var, ms)]\<rparr>)
                 env resolver s
               = applyMutators resolver k ms env1 s1
            \<and> k \<in> dom env1
            \<and> dom (fst (snd (applyMutators resolver k ms env1 s1))) = dom env1"
    by blast
  show "(\<forall>k\<in>set (map fst env). toLowerCase k \<noteq> toLowerCase var)
            \<and> objectPrototype (toLowerCase var) = None
          \<longrightarrow> applyToProcessEnvironment toLowerCase True (X\<lparr>variableMap := vs1 @ [(var, ms)]\<rparr>)
                 env resolver s
               = applyMutators resolver var ms env1 s1"
    using snoc actualVariable_no_match[of env toLowerCase var True] by simp
  show "toLowerCase = asciiToLowerCase \<and> ''PATH'' \<in> set (map fst env)
            \<and> (\<forall>k\<in>set (map fst env). asciiToLowerCase k = ''path'' \<longrightarrow> k = ''PATH'')
          \<longrightarrow> applyToProcessEnvironment toLowerCase True (X\<lparr>variableMap := vs1 @ [(''Path'', ms)]\<rparr>)
                 env resolver s
               = applyMutators resolver ''PATH'' ms env1 s1
            \<and> ''Path'' \<notin> dom (fst (snd (applyMutators resolver ''PATH'' ms env1 s1)))
            \<and> dom (fst (snd (applyMutators resolver ''PATH'' ms env1 s1))) = dom env1"
  proof
    assume a: "toLowerCase = asciiToLowerCase \<and> ''PATH'' \<in> set (map fst env)
            \<and> (\<forall>k\<in>set (map fst env). asciiToLowerCase k = ''path'' \<longrightarrow> k = ''PATH'')"
    then have lc: "toLowerCase = asciiToLowerCase" by simp
    from a obtain pre post where sp: "map fst env = pre @ ''PATH'' # post" "''PATH'' \<notin> set post"
      by (meson split_list_last)
    have post: "\<forall>k'\<in>set post. toLowerCase k' \<noteq> toLowerCase ''Path''"
    proof
      fix k' assume k': "k' \<in> set post"
      with sp have "k' \<in> set (map fst env)" by simp
      with a k' sp(2) show "toLowerCase k' \<noteq> toLowerCase ''Path''"
        by (auto simp: lc asciiToLowerCase_Path)
    qed
    have m: "map fst env = pre @ ''PATH'' # post \<and> toLowerCase ''PATH'' = toLowerCase ''Path''
            \<and> (\<forall>k'\<in>set post. toLowerCase k' \<noteq> toLowerCase ''Path'')
            \<and> ''PATH'' \<noteq> [] \<and> toLowerCase ''Path'' \<noteq> ''__proto__''"
      using sp(1) post by (simp add: lc asciiToLowerCase_Path asciiToLowerCase_PATH)
    note r = matched[OF m, of ms]
    have lowerPath: "lowerToActualVariableNames toLowerCase env ''path'' = Some ''PATH''"
      using lowerToActualVariableNames_last[of env pre "''PATH''" post toLowerCase] sp(1) post
      by (simp add: lc asciiToLowerCase_Path asciiToLowerCase_PATH)
    have noPath: "''Path'' \<notin> set (map fst env)"
    proof
      assume "''Path'' \<in> set (map fst env)"
      with a asciiToLowerCase_Path have "''Path'' = ''PATH''" by blast
      then show False by simp
    qed
    have "actualVariable toLowerCase True ?lower v \<noteq> ''Path''" for v
    proof
      assume e: "actualVariable toLowerCase True ?lower v = ''Path''"
      show False
      proof (cases "?lower (toLowerCase v)")
        case None
        with e objectPrototype_not_Path[of "toLowerCase v"] have "v = ''Path''"
          by (auto simp: actualVariable_def split: option.splits)
        with None lowerPath show False by (simp add: lc asciiToLowerCase_Path)
      next
        case (Some b)
        from lowerToActualVariableNames_SomeD[OF Some] have b: "b \<in> set (map fst env)" by simp
        show False
        proof (cases "b = []")
          case True
          with Some e have "v = ''Path''" by (simp add: actualVariable_def)
          with Some True lowerPath show False by (simp add: lc asciiToLowerCase_Path)
        next
          case False
          with Some e have "b = ''Path''" by (simp add: actualVariable_def)
          with b noPath show False by simp
        qed
      qed
    qed
    then have nv: "''Path'' \<notin> actualVariable toLowerCase True ?lower ` fst ` set vs1"
      by (metis imageE)
    from noPath have "''Path'' \<notin> fst ` set env" by simp
    with nv dom1 have "''Path'' \<notin> dom env1" by (simp add: subset_iff) blast
    with r show "applyToProcessEnvironment toLowerCase True (X\<lparr>variableMap := vs1 @ [(''Path'', ms)]\<rparr>)
                 env resolver s
               = applyMutators resolver ''PATH'' ms env1 s1
            \<and> ''Path'' \<notin> dom (fst (snd (applyMutators resolver ''PATH'' ms env1 s1)))
            \<and> dom (fst (snd (applyMutators resolver ''PATH'' ms env1 s1))) = dom env1"
      by simp
  qed
  show "\<forall>err env' t' c. applyToProcessEnvironment toLowerCase True Y env resolver s = (err, env', t')
             \<and> c \<in> dom env' \<and> c \<notin> set (map fst env)
             \<and> (\<forall>v\<in>fst ` set (variableMap Y). objectPrototype (toLowerCase v) = None)
             \<and> [] \<notin> set (map fst env)
          \<longrightarrow> c \<in> fst ` set (variableMap Y)
              \<and> (\<forall>k0\<in>set (map fst env). toLowerCase k0 \<noteq> toLowerCase c)"
  proof (intro allI impI)
    fix err env' t' c
    assume a: "applyToProcessEnvironment toLowerCase True Y env resolver s = (err, env', t')
             \<and> c \<in> dom env' \<and> c \<notin> set (map fst env)
             \<and> (\<forall>v\<in>fst ` set (variableMap Y). objectPrototype (toLowerCase v) = None)
             \<and> [] \<notin> set (map fst env)"
    then have run: "applyToProcessEnvironment toLowerCase True Y env resolver s = (err, env', t')"
      by blast
    from apply_dom[OF run] a
    have "c \<in> actualVariable toLowerCase True ?lower ` fst ` set (variableMap Y)" by auto
    then obtain v where v: "v \<in> fst ` set (variableMap Y)" "c = actualVariable toLowerCase True ?lower v"
      by blast
    from a have allv: "\<forall>v\<in>fst ` set (variableMap Y). objectPrototype (toLowerCase v) = None"
      by (elim conjE)
    from allv v(1) have op: "objectPrototype (toLowerCase v) = None" by (rule bspec)
    from actualVariable_created[OF v(2) _ op] a
    have "c = v \<and> (\<forall>k0\<in>fst ` set env. toLowerCase k0 \<noteq> toLowerCase v)" by simp
    with v(1) show "c \<in> fst ` set (variableMap Y)
              \<and> (\<forall>k0\<in>set (map fst env). toLowerCase k0 \<noteq> toLowerCase c)"
      by simp
  qed
qed

text \<open>
  C6 as stated fails when the environment has several keys of one lower case: with the
  keys \<open>PATH\<close> and \<open>path\<close>, in this order, the mutator of the variable \<open>Path\<close> is applied
  to \<open>path\<close>, and \<open>PATH\<close> keeps its value.
\<close>

theorem C6_counterexample:
  "applyToProcessEnvironment asciiToLowerCase True
     \<lparr>variableMap = [(''Path'', [\<lparr>variable = ''Path'', mvalue = ''c'', mtype = Append, scope = None,
                                  extensionIdentifier = ''ext.a''\<rparr>])],
      owningWorkspace = None\<rparr>
     [(''PATH'', Some ''b''), (''path'', Some ''a'')]
     (None :: (unit, unit) VariableResolver option) ()
   = (None, map_of [(''PATH'', Some ''b''), (''path'', Some ''ac'')], ())"
  by (simp add: applyToProcessEnvironment_def actualVariable_def lowerToActualVariableNames_def
        asciiToLowerCase_def asciiToLowerCaseChar_def resolveValue_def envOrEmpty_def setProperty_def
        fun_eq_iff)

theorem C6_witness:
  "applyToProcessEnvironment asciiToLowerCase True
     \<lparr>variableMap =
        [(''Lang'', [\<lparr>variable = ''Lang'', mvalue = ''C'', mtype = Replace, scope = None,
                       extensionIdentifier = ''ext.a''\<rparr>]),
         (''Path'', [\<lparr>variable = ''Path'', mvalue = '';C:/tools'', mtype = Append, scope = None,
                       extensionIdentifier = ''ext.b''\<rparr>,
                     \<lparr>variable = ''Path'', mvalue = ''C:/first;'', mtype = Prepend, scope = None,
                       extensionIdentifier = ''ext.a''\<rparr>])],
      owningWorkspace = None\<rparr>
     [(''HOME'', Some ''C:/me''), (''PATH'', Some ''C:/bin'')]
     (None :: (unit, unit) VariableResolver option) ()
   = (None,
      map_of [(''HOME'', Some ''C:/me''), (''PATH'', Some ''C:/first;C:/bin;C:/tools''),
              (''Lang'', Some ''C'')],
      ())"
proof -
  let ?env = "[(''HOME'', Some ''C:/me''), (''PATH'', Some ''C:/bin'')]"
  let ?n = "\<lparr>variable = ''Lang'', mvalue = ''C'', mtype = Replace, scope = None,
             extensionIdentifier = ''ext.a''\<rparr>"
  let ?m1 = "\<lparr>variable = ''Path'', mvalue = '';C:/tools'', mtype = Append, scope = None,
             extensionIdentifier = ''ext.b''\<rparr>"
  let ?m2 = "\<lparr>variable = ''Path'', mvalue = ''C:/first;'', mtype = Prepend, scope = None,
             extensionIdentifier = ''ext.a''\<rparr>"
  let ?X = "\<lparr>variableMap = ([] :: VariableMap), owningWorkspace = None\<rparr>"
  let ?r = "None :: (unit, unit) VariableResolver option"
  let ?env1 = "map_of [(''HOME'', Some ''C:/me''), (''PATH'', Some ''C:/bin''), (''Lang'', Some ''C'')]"
  have h0: "applyToProcessEnvironment asciiToLowerCase True (?X\<lparr>variableMap := []\<rparr>) ?env ?r ()
              = (None, map_of ?env, ())"
    by (simp add: applyToProcessEnvironment_def)
  have u: "(\<forall>k\<in>set (map fst ?env). asciiToLowerCase k \<noteq> asciiToLowerCase ''Lang'')
            \<and> objectPrototype (asciiToLowerCase ''Lang'') = None"
    by (simp add: asciiToLowerCase_def asciiToLowerCaseChar_def objectPrototype_def)
  from C6_case_insensitive_apply[OF h0, THEN conjunct2, THEN conjunct1, THEN mp, OF u, of "[?n]"]
  have h1: "applyToProcessEnvironment asciiToLowerCase True (?X\<lparr>variableMap := [(''Lang'', [?n])]\<rparr>) ?env ?r ()
              = (None, ?env1, ())"
    by (simp add: resolveValue_def setProperty_def fun_eq_iff)
  have p: "asciiToLowerCase = asciiToLowerCase \<and> ''PATH'' \<in> set (map fst ?env)
            \<and> (\<forall>k\<in>set (map fst ?env). asciiToLowerCase k = ''path'' \<longrightarrow> k = ''PATH'')"
    by (simp add: asciiToLowerCase_def asciiToLowerCaseChar_def)
  from C6_case_insensitive_apply[OF h1, THEN conjunct2, THEN conjunct2, THEN conjunct1, THEN mp, OF p,
      THEN conjunct1, of "[?m1, ?m2]"]
  show ?thesis
    by (simp add: resolveValue_def setProperty_def envOrEmpty_def fun_eq_iff)
qed

text \<open>
  C10, as the code has it. On Windows the lower-case map holds, for every key of the
  environment the call was given, the last key of the same lower case (but under
  \<^verbatim>\<open>__proto__\<close>), and nothing under a lower case that no key has. After any variables
  \<open>vs1\<close> are processed, the remaining ones are processed with that map, not with one of
  the keys the environment has by then: a variable that no key of the given environment
  matches is applied to its own name also when a key of its lower case was created in the
  meantime, and that key keeps its value. So for an environment with no key of the lower
  case \<open>path\<close>, a collection with the variable \<open>Path\<close> followed by the variable \<open>PATH\<close>,
  both with mutators, leaves two keys, \<open>Path\<close> and \<open>PATH\<close>.
\<close>

theorem C10_lower_map_built_once:
  "(map fst env = pre @ k # post \<and> (\<forall>k'\<in>set post. toLowerCase k' \<noteq> toLowerCase k)
      \<and> toLowerCase k \<noteq> ''__proto__''
    \<longrightarrow> lowerToActualVariableNames toLowerCase env (toLowerCase k) = Some k)
   \<and> ((\<forall>k\<in>set (map fst env). toLowerCase k \<noteq> l)
    \<longrightarrow> lowerToActualVariableNames toLowerCase env l = None)
   \<and> (variableMap X = vs1 @ vs2
      \<and> applyToProcessEnvironment toLowerCase True (X\<lparr>variableMap := vs1\<rparr>) env resolver s
          = (None, env1, s1)
    \<longrightarrow> applyToProcessEnvironment toLowerCase True X env resolver s
          = applyVariables toLowerCase resolver True (lowerToActualVariableNames toLowerCase env) vs2 env1 s1)
   \<and> (applyToProcessEnvironment toLowerCase True (X\<lparr>variableMap := vs1\<rparr>) env resolver s
          = (None, env1, s1)
      \<and> (\<forall>k\<in>set (map fst env). toLowerCase k \<noteq> toLowerCase var)
      \<and> objectPrototype (toLowerCase var) = None
      \<and> created \<in> dom env1 \<and> toLowerCase created = toLowerCase var \<and> created \<noteq> var
    \<longrightarrow> applyToProcessEnvironment toLowerCase True (X\<lparr>variableMap := vs1 @ [(var, ms)]\<rparr>) env resolver s
          = applyMutators resolver var ms env1 s1
        \<and> fst (snd (applyMutators resolver var ms env1 s1)) created = env1 created)
   \<and> ((\<forall>k\<in>set (map fst env). asciiToLowerCase k \<noteq> ''path'')
      \<and> ms1 \<noteq> [] \<and> ms2 \<noteq> []
      \<and> applyToProcessEnvironment asciiToLowerCase True
            \<lparr>variableMap = [(''Path'', ms1), (''PATH'', ms2)], owningWorkspace = ow\<rparr> env resolver s
          = (None, env', s')
    \<longrightarrow> (\<exists>env1 s1. applyMutators resolver ''Path'' ms1 (map_of env) s = (None, env1, s1)
            \<and> applyMutators resolver ''PATH'' ms2 env1 s1 = (None, env', s')
            \<and> env' ''Path'' = env1 ''Path'')
        \<and> ''Path'' \<in> dom env' \<and> ''PATH'' \<in> dom env'
        \<and> ''Path'' \<notin> set (map fst env) \<and> ''PATH'' \<notin> set (map fst env))"
proof (intro conjI impI)
  assume "map fst env = pre @ k # post \<and> (\<forall>k'\<in>set post. toLowerCase k' \<noteq> toLowerCase k)
      \<and> toLowerCase k \<noteq> ''__proto__''"
  then show "lowerToActualVariableNames toLowerCase env (toLowerCase k) = Some k"
    by (intro lowerToActualVariableNames_last[of env pre k post]) auto
next
  assume "\<forall>k\<in>set (map fst env). toLowerCase k \<noteq> l"
  then show "lowerToActualVariableNames toLowerCase env l = None"
    by (rule lowerToActualVariableNames_None)
next
  assume a: "variableMap X = vs1 @ vs2
      \<and> applyToProcessEnvironment toLowerCase True (X\<lparr>variableMap := vs1\<rparr>) env resolver s
          = (None, env1, s1)"
  then have "applyVariables toLowerCase resolver True (lowerToActualVariableNames toLowerCase env) vs1 (map_of env) s
      = (None, env1, s1)"
    by (simp add: applyToProcessEnvironment_eq)
  with a show "applyToProcessEnvironment toLowerCase True X env resolver s
          = applyVariables toLowerCase resolver True (lowerToActualVariableNames toLowerCase env) vs2 env1 s1"
    by (simp add: applyToProcessEnvironment_eq applyVariables_append)
next
  assume a: "applyToProcessEnvironment toLowerCase True (X\<lparr>variableMap := vs1\<rparr>) env resolver s
          = (None, env1, s1)
      \<and> (\<forall>k\<in>set (map fst env). toLowerCase k \<noteq> toLowerCase var)
      \<and> objectPrototype (toLowerCase var) = None
      \<and> created \<in> dom env1 \<and> toLowerCase created = toLowerCase var \<and> created \<noteq> var"
  then have run: "applyToProcessEnvironment toLowerCase True (X\<lparr>variableMap := vs1\<rparr>) env resolver s
          = (None, env1, s1)" by blast
  from a have "actualVariable toLowerCase True (lowerToActualVariableNames toLowerCase env) var = var"
    by (intro actualVariable_no_match) auto
  with apply_snoc[OF run, of var ms]
  show "applyToProcessEnvironment toLowerCase True (X\<lparr>variableMap := vs1 @ [(var, ms)]\<rparr>) env resolver s
          = applyMutators resolver var ms env1 s1"
    by simp
  obtain err env2 s2 where r: "applyMutators resolver var ms env1 s1 = (err, env2, s2)"
    by (cases "applyMutators resolver var ms env1 s1") auto
  from a have "created \<noteq> var" by blast
  from applyMutators_other[OF r this] r
  show "fst (snd (applyMutators resolver var ms env1 s1)) created = env1 created" by simp
next
  assume a: "(\<forall>k\<in>set (map fst env). asciiToLowerCase k \<noteq> ''path'')
      \<and> ms1 \<noteq> [] \<and> ms2 \<noteq> []
      \<and> applyToProcessEnvironment asciiToLowerCase True
            \<lparr>variableMap = [(''Path'', ms1), (''PATH'', ms2)], owningWorkspace = ow\<rparr> env resolver s
          = (None, env', s')"
  let ?lower = "lowerToActualVariableNames asciiToLowerCase env"
  from a have n: "\<forall>k\<in>set (map fst env). asciiToLowerCase k \<noteq> ''path''" by blast
  have k1: "actualVariable asciiToLowerCase True ?lower ''Path'' = ''Path''"
    using n by (intro actualVariable_no_match) (simp_all add: asciiToLowerCase_Path objectPrototype_path)
  have k2: "actualVariable asciiToLowerCase True ?lower ''PATH'' = ''PATH''"
    using n by (intro actualVariable_no_match) (simp_all add: asciiToLowerCase_PATH objectPrototype_path)
  obtain e1 env1 s1 where am1: "applyMutators resolver ''Path'' ms1 (map_of env) s = (e1, env1, s1)"
    by (cases "applyMutators resolver ''Path'' ms1 (map_of env) s") auto
  from a have run: "applyVariables asciiToLowerCase resolver True ?lower
      [(''Path'', ms1), (''PATH'', ms2)] (map_of env) s = (None, env', s')"
    by (simp add: applyToProcessEnvironment_eq)
  have e1: "e1 = None"
    using run am1 by (cases e1) (simp_all add: k1)
  with run am1 have run2: "applyVariables asciiToLowerCase resolver True ?lower
      [(''PATH'', ms2)] env1 s1 = (None, env', s')"
    by (simp add: k1)
  obtain e2 env2 s2 where am2: "applyMutators resolver ''PATH'' ms2 env1 s1 = (e2, env2, s2)"
    by (cases "applyMutators resolver ''PATH'' ms2 env1 s1") auto
  have "e2 = None \<and> env2 = env' \<and> s2 = s'"
    using run2 am2 by (cases e2) (simp_all add: k2)
  with am2 have am2': "applyMutators resolver ''PATH'' ms2 env1 s1 = (None, env', s')" by simp
  from am1 e1 have am1': "applyMutators resolver ''Path'' ms1 (map_of env) s = (None, env1, s1)" by simp
  have other: "env' ''Path'' = env1 ''Path''"
    using applyMutators_other[OF am2', of "''Path''"] by simp
  from am1' am2' other
  show "\<exists>env1 s1. applyMutators resolver ''Path'' ms1 (map_of env) s = (None, env1, s1)
            \<and> applyMutators resolver ''PATH'' ms2 env1 s1 = (None, env', s')
            \<and> env' ''Path'' = env1 ''Path''"
    by blast
  from a have ne: "ms1 \<noteq> []" "ms2 \<noteq> []" by blast+
  have "''Path'' \<in> dom env1"
    using applyMutators_key_present[OF am1' ne(1)] by simp
  with applyMutators_dom[OF am2'] show "''Path'' \<in> dom env'" by blast
  show "''PATH'' \<in> dom env'"
    using applyMutators_key_present[OF am2' ne(2)] by simp
  show "''Path'' \<notin> set (map fst env)" using n asciiToLowerCase_Path by blast
  show "''PATH'' \<notin> set (map fst env)" using n asciiToLowerCase_PATH by blast
qed

text \<open>
  C10 as stated fails: the environment has neither the key \<open>Path\<close> nor the key \<open>PATH\<close>,
  but the key \<open>path\<close>. Both variables resolve to it and the call leaves one key.
\<close>

theorem C10_counterexample:
  "applyToProcessEnvironment asciiToLowerCase True
     \<lparr>variableMap =
        [(''Path'', [\<lparr>variable = ''Path'', mvalue = ''a'', mtype = Append, scope = None,
                       extensionIdentifier = ''ext.a''\<rparr>]),
         (''PATH'', [\<lparr>variable = ''PATH'', mvalue = ''b'', mtype = Append, scope = None,
                       extensionIdentifier = ''ext.a''\<rparr>])],
      owningWorkspace = None\<rparr>
     [(''path'', Some ''h'')] (None :: (unit, unit) VariableResolver option) ()
   = (None, [''path'' \<mapsto> Some ''hab''], ())"
  by (simp add: applyToProcessEnvironment_def actualVariable_def lowerToActualVariableNames_def
        asciiToLowerCase_def asciiToLowerCaseChar_def resolveValue_def envOrEmpty_def setProperty_def)

theorem C10_witness:
  "applyToProcessEnvironment asciiToLowerCase True
     \<lparr>variableMap =
        [(''Path'', [\<lparr>variable = ''Path'', mvalue = ''a'', mtype = Append, scope = None,
                       extensionIdentifier = ''ext.a''\<rparr>]),
         (''PATH'', [\<lparr>variable = ''PATH'', mvalue = ''b'', mtype = Append, scope = None,
                       extensionIdentifier = ''ext.a''\<rparr>])],
      owningWorkspace = None\<rparr>
     [(''HOME'', Some ''h'')] (None :: (unit, unit) VariableResolver option) ()
   = (None, map_of [(''HOME'', Some ''h''), (''Path'', Some ''a''), (''PATH'', Some ''b'')], ())
   \<and> ''Path'' \<in> dom (map_of [(''HOME'', Some ''h''), (''Path'', Some ''a''), (''PATH'', Some (''b'' :: string))])
   \<and> ''PATH'' \<in> dom (map_of [(''HOME'', Some ''h''), (''Path'', Some ''a''), (''PATH'', Some (''b'' :: string))])
   \<and> lowerToActualVariableNames asciiToLowerCase
        [(''HOME'', Some ''h''), (''Path'', Some ''p''), (''TEMP'', Some (''t'' :: string))] ''path''
      = Some ''Path''
   \<and> lowerToActualVariableNames asciiToLowerCase
        [(''HOME'', Some ''h''), (''Path'', Some ''p''), (''TEMP'', Some (''t'' :: string))] ''lang''
      = None"
proof -
  let ?p1 = "\<lparr>variable = ''Path'', mvalue = ''a'', mtype = Append, scope = None,
                       extensionIdentifier = ''ext.a''\<rparr>"
  let ?p2 = "\<lparr>variable = ''PATH'', mvalue = ''b'', mtype = Append, scope = None,
                       extensionIdentifier = ''ext.a''\<rparr>"
  let ?env = "[(''HOME'', Some ''h'')]"
  let ?env' = "map_of [(''HOME'', Some ''h''), (''Path'', Some ''a''), (''PATH'', Some ''b'')]"
  let ?r = "None :: (unit, unit) VariableResolver option"
  let ?e3 = "[(''HOME'', Some ''h''), (''Path'', Some ''p''), (''TEMP'', Some (''t'' :: string))]"
  have run: "applyToProcessEnvironment asciiToLowerCase True
     \<lparr>variableMap = [(''Path'', [?p1]), (''PATH'', [?p2])], owningWorkspace = None\<rparr> ?env ?r ()
     = (None, ?env', ())"
    by (simp add: applyToProcessEnvironment_def actualVariable_def lowerToActualVariableNames_def
          asciiToLowerCase_def asciiToLowerCaseChar_def resolveValue_def envOrEmpty_def
          setProperty_def objectPrototype_def fun_eq_iff)
  have h: "(\<forall>k\<in>set (map fst ?env). asciiToLowerCase k \<noteq> ''path'')
      \<and> [?p1] \<noteq> [] \<and> [?p2] \<noteq> []
      \<and> applyToProcessEnvironment asciiToLowerCase True
            \<lparr>variableMap = [(''Path'', [?p1]), (''PATH'', [?p2])], owningWorkspace = None\<rparr> ?env ?r ()
          = (None, ?env', ())"
    using run by (simp add: asciiToLowerCase_def asciiToLowerCaseChar_def)
  have g: "map fst ?e3 = [''HOME''] @ ''Path'' # [''TEMP'']
      \<and> (\<forall>k'\<in>set [''TEMP'']. asciiToLowerCase k' \<noteq> asciiToLowerCase ''Path'')
      \<and> asciiToLowerCase ''Path'' \<noteq> ''__proto__''"
    by (simp add: asciiToLowerCase_def asciiToLowerCaseChar_def)
  have n: "\<forall>k\<in>set (map fst ?e3). asciiToLowerCase k \<noteq> ''lang''"
    by (simp add: asciiToLowerCase_def asciiToLowerCaseChar_def)
  note two = C10_lower_map_built_once[THEN conjunct2, THEN conjunct2, THEN conjunct2, THEN conjunct2,
      THEN mp, OF h]
  note one = C10_lower_map_built_once[THEN conjunct1, THEN mp, OF g]
  note none = C10_lower_map_built_once[THEN conjunct2, THEN conjunct1, THEN mp, OF n]
  from one have one': "lowerToActualVariableNames asciiToLowerCase ?e3 ''path'' = Some ''Path''"
    by (simp add: asciiToLowerCase_Path)
  from run two one' none show ?thesis by blast
qed

section \<open>The end-to-end scenario\<close>

text \<open>
  C3. Extension \<open>ext.a\<close> contributes \<open>Prepend 1\<close> for \<open>FOO\<close> and extension \<open>ext.b\<close>
  contributes \<open>Append 2\<close> for \<open>FOO\<close>, neither mutator scoped. Merging them in the order
  \<open>ext.a\<close>, \<open>ext.b\<close> with no owning workspace and applying the result with no resolver
  to the environment \<open>FOO = X\<close> fulfils and leaves \<open>FOO = 1X2\<close> as the only property, on
  either platform.
\<close>

theorem C3_end_to_end:
  "applyToProcessEnvironment asciiToLowerCase isWindows
     (MergedEnvironmentVariableCollection
        [(''ext.a'', [(''FOO'', \<lparr>variable = ''FOO'', mvalue = ''1'', mtype = Prepend, scope = None\<rparr>)]),
         (''ext.b'', [(''FOO'', \<lparr>variable = ''FOO'', mvalue = ''2'', mtype = Append, scope = None\<rparr>)])]
        None)
     [(''FOO'', Some ''X'')] None s
   = (None, [''FOO'' \<mapsto> Some ''1X2''], s)"
  by (cases isWindows)
     (simp_all add: applyToProcessEnvironment_def MergedEnvironmentVariableCollection_def
        mergeCollection_def mergeMutator_def skippedByScope_def ownedBy_def actualVariable_def
        lowerToActualVariableNames_def asciiToLowerCase_def asciiToLowerCaseChar_def
        resolveValue_def envOrEmpty_def setProperty_def)

end
